theory Spec2Isabelle
  imports Main "HOL-Library.AList" "HOL-Library.Multiset"
begin

section \<open>Tagged messages\<close>

text \<open>
  The message union of the protocol package. Only the discriminant and the request id
  matter to the two classes verified here; the remaining fields of a message are kept
  as one opaque payload.
\<close>

type_synonym payload = string

datatype msg =
    AnnouncePresence payload
  | Changes payload
  | RejectChanges payload
  | StartStreaming payload
  | CreateDbOnPrimary int payload
  | ApplyChangesOnPrimary int payload
  | CreateDbOnPrimaryResponse int payload
  | ApplyChangesOnPrimaryResponse int payload
  | Ping
  | Pong
  | Err int string

text \<open>\<^verbatim>\<open>msg._reqid\<close>: absent (\<^verbatim>\<open>undefined\<close>) on the variants that carry none.\<close>

fun reqid :: "msg \<Rightarrow> int option" where
  "reqid (CreateDbOnPrimary i _) = Some i"
| "reqid (ApplyChangesOnPrimary i _) = Some i"
| "reqid (CreateDbOnPrimaryResponse i _) = Some i"
| "reqid (ApplyChangesOnPrimaryResponse i _) = Some i"
| "reqid (Err i _) = Some i"
| "reqid _ = None"

fun isErr :: "msg \<Rightarrow> bool" where
  "isErr (Err _ _) = True"
| "isErr _ = False"

section \<open>PrimarySocket\<close>

subsection \<open>State\<close>

text \<open>
  A promise created by \<^verbatim>\<open>sendCreateDb\<close> or \<^verbatim>\<open>sendApplyChanges\<close> is
  named by a number, handed out in creation order. Every call of a promise's
  \<^verbatim>\<open>resolve\<close> or \<^verbatim>\<open>reject\<close> function is recorded, so a promise whose functions
  were called twice shows two records.
\<close>

datatype outcome =
    Resolved msg
  | Rejected msg
  | RejectedWrite string

datatype peffect =
    SocketConnect int string
  | SetInterval int
  | SocketWrite msg
  | Settle nat outcome
  | PrematurelyClosed
  | LoggerError string
  | PingWriteError string

datatype perror =
    DecodeThrew
  | NoSuchRequest int
  | NoSuchErrRequest int
  | UnexpectedMessage msg

text \<open>
  \<^verbatim>\<open>onPrematurelyClosed\<close> belongs to the owner of the link. An invocation is
  recorded as the effect \<open>PrematurelyClosed\<close>; the callback is taken to return without
  calling a method of the link. Settling a promise runs no code of its waiters at once:
  their reactions are queued and run after the current handler has returned.
\<close>

text \<open>
  The two request tables are JavaScript \<^verbatim>\<open>Map\<close>s: insertion-ordered, one entry
  per key. They are association lists; \<^verbatim>\<open>set\<close> is \<^const>\<open>AList.update\<close> (an
  existing key keeps its place, a new one goes to the end), \<^verbatim>\<open>delete\<close> is
  \<^const>\<open>AList.delete\<close>, \<^verbatim>\<open>get\<close> is \<^const>\<open>map_of\<close>. The value stored under
  a request id is the resolver closure, which is determined by the promise it settles.
\<close>

record psocket =
  port :: int
  appName :: "string option"
  currentPrimaryInstanceId :: string
  socketDestroyed :: bool
  pingPongActive :: bool
  lastPong :: int
  createDbRequests :: "(int \<times> nat) list"
  applyChangesRequests :: "(int \<times> nat) list"
  closed :: bool
  nextPromise :: nat
  effects :: "peffect list"

definition emit :: "peffect \<Rightarrow> psocket \<Rightarrow> psocket" where
  "emit e s = s\<lparr>effects := effects s @ [e]\<rparr>"

text \<open>\<^verbatim>\<open>Map.delete(msg._reqid)\<close>; deleting \<^verbatim>\<open>undefined\<close> finds no entry.\<close>

fun deleteKey :: "int option \<Rightarrow> (int \<times> nat) list \<Rightarrow> (int \<times> nat) list" where
  "deleteKey None t = t"
| "deleteKey (Some k) t = AList.delete k t"

definition pingIntervalMs :: int where
  "pingIntervalMs = 1000"

definition pongTimeoutMs :: int where
  "pongTimeoutMs = 5000"

definition closedErr :: msg where
  "closedErr = Err (- 1) ''Primary connection closed''"

subsection \<open>Construction\<close>

definition connectHost :: "string option \<Rightarrow> string \<Rightarrow> string" where
  "connectHost app inst =
     (case app of None \<Rightarrow> inst | Some a \<Rightarrow> inst @ ''.vm.'' @ a @ ''.internal'')"

text \<open>\<^verbatim>\<open>#connect\<close>, with the reading of the clock it makes.\<close>

definition connect :: "int \<Rightarrow> psocket \<Rightarrow> psocket" where
  "connect now s =
     (emit (SocketConnect (port s) (connectHost (appName s) (currentPrimaryInstanceId s))) s)
       \<lparr>socketDestroyed := False, lastPong := now\<rparr>"

text \<open>
  The constructor reads the clock twice: in \<^verbatim>\<open>#connect\<close> and again after the
  interval timer is installed.
\<close>

definition PrimarySocket_new :: "int \<Rightarrow> string option \<Rightarrow> string \<Rightarrow> int \<Rightarrow> int \<Rightarrow> psocket" where
  "PrimarySocket_new p app inst tConnect tNow =
     (let s0 = \<lparr>port = p, appName = app, currentPrimaryInstanceId = inst,
                socketDestroyed = False, pingPongActive = False, lastPong = 0,
                createDbRequests = [], applyChangesRequests = [], closed = False,
                nextPromise = 0, effects = []\<rparr>;
          s1 = connect tConnect s0;
          s2 = (emit (SetInterval pingIntervalMs) s1)\<lparr>pingPongActive := True\<rparr>
      in s2\<lparr>lastPong := tNow\<rparr>)"

text \<open>What a resolver closure does to its promise when called with \<open>m\<close>.\<close>

definition settleOf :: "msg \<Rightarrow> outcome" where
  "settleOf m = (if isErr m then Rejected m else Resolved m)"

subsection \<open>Sending\<close>

text \<open>
  The resolver closures. The parameter of the closure shadows the request, so the key
  deleted is the request id of the message the closure is called with.
\<close>

definition createDbResolver :: "nat \<Rightarrow> msg \<Rightarrow> psocket \<Rightarrow> psocket" where
  "createDbResolver p m s =
     (let s1 = s\<lparr>createDbRequests := deleteKey (reqid m) (createDbRequests s)\<rparr>
      in if isErr m then emit (Settle p (Rejected m)) s1
         else emit (Settle p (Resolved m)) s1)"

definition applyChangesResolver :: "nat \<Rightarrow> msg \<Rightarrow> psocket \<Rightarrow> psocket" where
  "applyChangesResolver p m s =
     (let s1 = s\<lparr>applyChangesRequests := deleteKey (reqid m) (applyChangesRequests s)\<rparr>
      in if isErr m then emit (Settle p (Rejected m)) s1
         else emit (Settle p (Resolved m)) s1)"

text \<open>
  \<^verbatim>\<open>sendCreateDb\<close> returns the new promise. The callback of the socket write runs
  later, as an event of its own: \<open>createDbWriteDone\<close>.
\<close>

definition sendCreateDb :: "int \<Rightarrow> payload \<Rightarrow> psocket \<Rightarrow> nat \<times> psocket" where
  "sendCreateDb rid pl s =
     (let p = nextPromise s;
          s1 = s\<lparr>nextPromise := Suc p\<rparr>;
          s2 = s1\<lparr>createDbRequests := AList.update rid p (createDbRequests s1)\<rparr>
      in (p, emit (SocketWrite (CreateDbOnPrimary rid pl)) s2))"

definition createDbWriteDone :: "int \<Rightarrow> nat \<Rightarrow> string option \<Rightarrow> psocket \<Rightarrow> psocket" where
  "createDbWriteDone rid p e s =
     (case e of
        None \<Rightarrow> s
      | Some err \<Rightarrow>
          emit (Settle p (RejectedWrite err))
            (s\<lparr>createDbRequests := AList.delete rid (createDbRequests s)\<rparr>))"

definition sendApplyChanges :: "int \<Rightarrow> payload \<Rightarrow> psocket \<Rightarrow> nat \<times> psocket" where
  "sendApplyChanges rid pl s =
     (let p = nextPromise s;
          s1 = s\<lparr>nextPromise := Suc p\<rparr>;
          s2 = s1\<lparr>applyChangesRequests := AList.update rid p (applyChangesRequests s1)\<rparr>
      in (p, emit (SocketWrite (ApplyChangesOnPrimary rid pl)) s2))"

definition applyChangesWriteDone :: "int \<Rightarrow> nat \<Rightarrow> string option \<Rightarrow> psocket \<Rightarrow> psocket" where
  "applyChangesWriteDone rid p e s =
     (case e of
        None \<Rightarrow> s
      | Some err \<Rightarrow>
          emit (Settle p (RejectedWrite err))
            (s\<lparr>applyChangesRequests := AList.delete rid (applyChangesRequests s)\<rparr>))"

subsection \<open>Inbound messages\<close>

text \<open>The \<^verbatim>\<open>switch\<close> of \<^verbatim>\<open>#handleMessage\<close>; \<open>now\<close> is \<^verbatim>\<open>Date.now()\<close>.\<close>

fun dispatch :: "int \<Rightarrow> msg \<Rightarrow> psocket \<Rightarrow> perror + psocket" where
  "dispatch now Pong s = Inr (s\<lparr>lastPong := now\<rparr>)"
| "dispatch now (CreateDbOnPrimaryResponse rid pl) s =
     (case map_of (createDbRequests s) rid of
        None \<Rightarrow> Inl (NoSuchRequest rid)
      | Some p \<Rightarrow> Inr (createDbResolver p (CreateDbOnPrimaryResponse rid pl) s))"
| "dispatch now (Err rid e) s =
     (case map_of (createDbRequests s) rid of
        Some p \<Rightarrow> Inr (createDbResolver p (Err rid e) s)
      | None \<Rightarrow>
          (case map_of (applyChangesRequests s) rid of
             Some p \<Rightarrow> Inr (applyChangesResolver p (Err rid e) s)
           | None \<Rightarrow> Inl (NoSuchErrRequest rid)))"
| "dispatch now (ApplyChangesOnPrimaryResponse rid pl) s =
     (case map_of (applyChangesRequests s) rid of
        None \<Rightarrow> Inl (NoSuchRequest rid)
      | Some p \<Rightarrow> Inr (applyChangesResolver p (ApplyChangesOnPrimaryResponse rid pl) s))"
| "dispatch now m s = Inl (UnexpectedMessage m)"

text \<open>
  \<^verbatim>\<open>#handleMessage\<close>. The codec is a parameter: \<open>decode\<close> gives \<open>None\<close> where
  the codec throws.
\<close>

definition handleMessage :: "('raw \<Rightarrow> msg option) \<Rightarrow> int \<Rightarrow> 'raw \<Rightarrow> psocket \<Rightarrow> perror + psocket" where
  "handleMessage decode now data s =
     (case decode data of
        None \<Rightarrow> Inl DecodeThrew
      | Some m \<Rightarrow> dispatch now m s)"

subsection \<open>Teardown\<close>

text \<open>
  The \<^verbatim>\<open>for ... of\<close> loops of \<^verbatim>\<open>#rejectPending\<close> iterate over the live table:
  an entry that the loop body deletes before the iterator reaches it is not visited.
  \<open>rest\<close> holds the entries still to visit.
\<close>

fun rejectCreateDbLoop :: "(int \<times> nat) list \<Rightarrow> psocket \<Rightarrow> psocket" where
  "rejectCreateDbLoop [] s = s"
| "rejectCreateDbLoop ((k, r) # rest) s =
     (let s' = createDbResolver r closedErr s
      in rejectCreateDbLoop (filter (\<lambda>e. e \<in> set (createDbRequests s')) rest) s')"

fun rejectApplyChangesLoop :: "(int \<times> nat) list \<Rightarrow> psocket \<Rightarrow> psocket" where
  "rejectApplyChangesLoop [] s = s"
| "rejectApplyChangesLoop ((k, r) # rest) s =
     (let s' = applyChangesResolver r closedErr s
      in rejectApplyChangesLoop (filter (\<lambda>e. e \<in> set (applyChangesRequests s')) rest) s')"

text \<open>The rejections a sweep makes when it visits the entries \<open>t\<close>.\<close>

definition rejections :: "(int \<times> nat) list \<Rightarrow> peffect list" where
  "rejections t = map (\<lambda>e. Settle (snd e) (Rejected closedErr)) t"

definition rejectPending :: "psocket \<Rightarrow> psocket" where
  "rejectPending s =
     (let s1 = rejectCreateDbLoop (createDbRequests s) s;
          s2 = s1\<lparr>createDbRequests := []\<rparr>;
          s3 = rejectApplyChangesLoop (applyChangesRequests s2) s2
      in s3\<lparr>applyChangesRequests := []\<rparr>)"

definition onError :: "string \<Rightarrow> psocket \<Rightarrow> psocket" where
  "onError e s =
     (let s1 = emit (LoggerError e) s
      in if \<not> closed s1 then emit PrematurelyClosed (rejectPending s1) else s1)"

definition onClose :: "psocket \<Rightarrow> psocket" where
  "onClose s = (if \<not> closed s then emit PrematurelyClosed (rejectPending s) else s)"

definition sendPing :: "int \<Rightarrow> psocket \<Rightarrow> psocket" where
  "sendPing now s =
     (if now - lastPong s > pongTimeoutMs
      then s\<lparr>socketDestroyed := True, pingPongActive := False\<rparr>
      else emit (SocketWrite Ping) s)"

definition pingWriteDone :: "string option \<Rightarrow> psocket \<Rightarrow> psocket" where
  "pingWriteDone e s = (case e of None \<Rightarrow> s | Some err \<Rightarrow> emit (PingWriteError err) s)"

definition close :: "psocket \<Rightarrow> psocket" where
  "close s = rejectPending (s\<lparr>closed := True, socketDestroyed := True, pingPongActive := False\<rparr>)"

subsection \<open>Observations and runs\<close>

text \<open>The calls made on the settle functions of promise \<open>p\<close>, in order.\<close>

fun settlesOf :: "nat \<Rightarrow> peffect list \<Rightarrow> outcome list" where
  "settlesOf p [] = []"
| "settlesOf p (Settle q out # es) = (if q = p then out # settlesOf p es else settlesOf p es)"
| "settlesOf p (e # es) = settlesOf p es"

text \<open>How often \<^verbatim>\<open>onPrematurelyClosed\<close> has been invoked.\<close>

definition callbackCount :: "psocket \<Rightarrow> nat" where
  "callbackCount s = count_list (effects s) PrematurelyClosed"

text \<open>
  The interval timer: it calls \<^verbatim>\<open>#sendPing\<close> at each of the given clock readings
  for as long as \<^verbatim>\<open>clearInterval\<close> has not been called on its handle.
\<close>

fun timerFires :: "int list \<Rightarrow> psocket \<Rightarrow> psocket" where
  "timerFires [] s = s"
| "timerFires (t # ts) s = (if pingPongActive s then timerFires ts (sendPing t s) else s)"

text \<open>The events of the socket that report a transport failure.\<close>

datatype tevent = SockError string | SockClose

fun transport :: "tevent \<Rightarrow> psocket \<Rightarrow> psocket" where
  "transport (SockError e) s = onError e s"
| "transport SockClose s = onClose s"

fun transportAll :: "tevent list \<Rightarrow> psocket \<Rightarrow> psocket" where
  "transportAll [] s = s"
| "transportAll (ev # evs) s = transportAll evs (transport ev s)"

text \<open>A call of one of the two send methods, and a batch of calls issued one after the other.\<close>

datatype call = CallCreateDb int payload | CallApplyChanges int payload

fun callId :: "call \<Rightarrow> int" where
  "callId (CallCreateDb i _) = i"
| "callId (CallApplyChanges i _) = i"

fun issue :: "call \<Rightarrow> psocket \<Rightarrow> psocket" where
  "issue (CallCreateDb i pl) s = snd (sendCreateDb i pl s)"
| "issue (CallApplyChanges i pl) s = snd (sendApplyChanges i pl s)"

fun issueAll :: "call list \<Rightarrow> psocket \<Rightarrow> psocket" where
  "issueAll [] s = s"
| "issueAll (c # cs) s = issueAll cs (issue c s)"

text \<open>
  \<open>answers c m\<close>: the message \<open>m\<close> is a reply to the call \<open>c\<close>; it bears the
  call's request id and is the response of the call's family or an \<^verbatim>\<open>Err\<close>.
\<close>

fun answers :: "call \<Rightarrow> msg \<Rightarrow> bool" where
  "answers (CallCreateDb i _) (CreateDbOnPrimaryResponse j _) = (i = j)"
| "answers (CallApplyChanges i _) (ApplyChangesOnPrimaryResponse j _) = (i = j)"
| "answers c (Err j _) = (callId c = j)"
| "answers c m = False"

text \<open>
  The \<^verbatim>\<open>data\<close> events of the socket, each with the clock reading at its arrival. An
  exception thrown by the listener ends the run.
\<close>

fun handleMessages :: "('raw \<Rightarrow> msg option) \<Rightarrow> (int \<times> 'raw) list \<Rightarrow> psocket \<Rightarrow> perror + psocket" where
  "handleMessages decode [] s = Inr s"
| "handleMessages decode ((now, d) # ds) s =
     (case handleMessage decode now d s of
        Inl e \<Rightarrow> Inl e
      | Inr s' \<Rightarrow> handleMessages decode ds s')"

text \<open>The promise whose resolver \<^verbatim>\<open>#handleMessage\<close> finds for a message, if any.\<close>

fun route :: "msg \<Rightarrow> psocket \<Rightarrow> nat option" where
  "route (CreateDbOnPrimaryResponse rid _) s = map_of (createDbRequests s) rid"
| "route (ApplyChangesOnPrimaryResponse rid _) s = map_of (applyChangesRequests s) rid"
| "route (Err rid _) s =
     (case map_of (createDbRequests s) rid of
        Some p \<Rightarrow> Some p
      | None \<Rightarrow> map_of (applyChangesRequests s) rid)"
| "route m s = None"

text \<open>The promise registered for a call in the table of its family, if any.\<close>

fun registeredAt :: "call \<Rightarrow> psocket \<Rightarrow> nat option" where
  "registeredAt (CallCreateDb i _) s = map_of (createDbRequests s) i"
| "registeredAt (CallApplyChanges i _) s = map_of (applyChangesRequests s) i"

definition pendingIds :: "psocket \<Rightarrow> int list" where
  "pendingIds s = map fst (createDbRequests s) @ map fst (applyChangesRequests s)"

section \<open>ConnectionBroker\<close>

subsection \<open>State\<close>

text \<open>
  The session factory and the sync session are collaborators. A session is named by a
  number; every call the broker makes on a collaborator is recorded in \<open>blog\<close>, together
  with what the broker writes to the console. Whether such a call throws is given by an
  environment \<open>env\<close>; the outcome of an awaited promise arrives later, as an event.
\<close>

datatype exn =
    AlreadyStarted string
  | IllegalStartStreaming
  | NullSession
  | DecodeFailed
  | Raised string

datatype beffect =
    CreateSyncConnection string msg
  | SessionStart nat
  | SessionReceiveChanges nat msg
  | SessionChangesRejected nat msg
  | SessionClose nat
  | ConsoleError exn

record broker =
  syncConnection :: "nat option"
  room :: string
  blog :: "beffect list"

definition ConnectionBroker_new :: "string \<Rightarrow> broker" where
  "ConnectionBroker_new rm = \<lparr>syncConnection = None, room = rm, blog = []\<rparr>"

definition callOut :: "(beffect \<Rightarrow> exn option) \<Rightarrow> beffect \<Rightarrow> broker \<Rightarrow> exn option \<times> broker" where
  "callOut env c b = (env c, b\<lparr>blog := blog b @ [c]\<rparr>)"

subsection \<open>Dispatch\<close>

text \<open>
  \<^verbatim>\<open>#handleMessage\<close> is an \<^verbatim>\<open>async\<close> function: it runs until it returns, throws
  or reaches an \<^verbatim>\<open>await\<close>, where it is suspended until the awaited promise settles.
  Other events are handled in between.
\<close>

datatype suspension = AwaitCreateSyncConnection | AwaitReceiveChanges

datatype hm = Return broker | Throw exn broker | Await suspension broker

fun brokerHandleMessage :: "(beffect \<Rightarrow> exn option) \<Rightarrow> msg \<Rightarrow> broker \<Rightarrow> hm" where
  "brokerHandleMessage env (AnnouncePresence pl) b =
     (if syncConnection b \<noteq> None then Throw (AlreadyStarted (room b)) b
      else (case callOut env (CreateSyncConnection (room b) (AnnouncePresence pl)) b of
              (Some e, b') \<Rightarrow> Throw e b'
            | (None, b') \<Rightarrow> Await AwaitCreateSyncConnection b'))"
| "brokerHandleMessage env (Changes pl) b =
     (case syncConnection b of
        None \<Rightarrow> Throw NullSession b
      | Some sid \<Rightarrow>
          (case callOut env (SessionReceiveChanges sid (Changes pl)) b of
             (Some e, b') \<Rightarrow> Throw e b'
           | (None, b') \<Rightarrow> Await AwaitReceiveChanges b'))"
| "brokerHandleMessage env (RejectChanges pl) b =
     (case syncConnection b of
        None \<Rightarrow> Throw NullSession b
      | Some sid \<Rightarrow>
          (case callOut env (SessionChangesRejected sid (RejectChanges pl)) b of
             (Some e, b') \<Rightarrow> Throw e b'
           | (None, b') \<Rightarrow> Return b'))"
| "brokerHandleMessage env (StartStreaming pl) b = Throw IllegalStartStreaming b"
| "brokerHandleMessage env m b = Return b"

text \<open>The rest of the \<^verbatim>\<open>AnnouncePresence\<close> case, once the factory's promise settles.\<close>

definition afterCreateSyncConnection :: "(beffect \<Rightarrow> exn option) \<Rightarrow> exn + nat \<Rightarrow> broker \<Rightarrow> hm" where
  "afterCreateSyncConnection env res b =
     (case res of
        Inl e \<Rightarrow> Throw e b
      | Inr sid \<Rightarrow>
          (case callOut env (SessionStart sid) (b\<lparr>syncConnection := Some sid\<rparr>) of
             (Some e, b') \<Rightarrow> Throw e b'
           | (None, b') \<Rightarrow> Return b'))"

text \<open>The rest of the \<^verbatim>\<open>Changes\<close> case, once \<^verbatim>\<open>receiveChanges\<close> settles.\<close>

definition afterReceiveChanges :: "exn option \<Rightarrow> broker \<Rightarrow> hm" where
  "afterReceiveChanges res b = (case res of Some e \<Rightarrow> Throw e b | None \<Rightarrow> Return b)"

text \<open>
  \<^verbatim>\<open>close\<close>. It is also what the \<^verbatim>\<open>close\<close> and \<^verbatim>\<open>error\<close> listeners of the
  web socket call.
\<close>

definition brokerClose :: "(beffect \<Rightarrow> exn option) \<Rightarrow> broker \<Rightarrow> exn option \<times> broker" where
  "brokerClose env b =
     (case syncConnection b of
        None \<Rightarrow> (None, b)
      | Some sid \<Rightarrow> callOut env (SessionClose sid) b)"

subsection \<open>The listeners registered by the constructor\<close>

text \<open>
  What the \<^verbatim>\<open>message\<close> listener has come to: finished, suspended at an
  \<^verbatim>\<open>await\<close>, or left by an exception that nothing in the listener caught.
\<close>

datatype handled = Done broker | Pending suspension broker | Unhandled exn broker

fun brokerOf :: "handled \<Rightarrow> broker" where
  "brokerOf (Done b) = b"
| "brokerOf (Pending k b) = b"
| "brokerOf (Unhandled e b) = b"

text \<open>The \<^verbatim>\<open>try\<close>/\<^verbatim>\<open>catch\<close> around \<^verbatim>\<open>await this.#handleMessage(msg)\<close>.\<close>

fun tryCatch :: "(beffect \<Rightarrow> exn option) \<Rightarrow> hm \<Rightarrow> handled" where
  "tryCatch env (Return b) = Done b"
| "tryCatch env (Await k b) = Pending k b"
| "tryCatch env (Throw e b) =
     (case brokerClose env (b\<lparr>blog := blog b @ [ConsoleError e]\<rparr>) of
        (None, b') \<Rightarrow> Done b'
      | (Some e', b') \<Rightarrow> Unhandled e' b')"

text \<open>The \<^verbatim>\<open>message\<close> listener up to its first suspension; \<^verbatim>\<open>decode\<close> is called before the \<^verbatim>\<open>try\<close>.\<close>

definition onMessage :: "('raw \<Rightarrow> msg option) \<Rightarrow> (beffect \<Rightarrow> exn option) \<Rightarrow> 'raw \<Rightarrow> broker \<Rightarrow> handled" where
  "onMessage decode env data b =
     (case decode data of
        None \<Rightarrow> Unhandled DecodeFailed b
      | Some m \<Rightarrow> tryCatch env (brokerHandleMessage env m b))"

definition onCreateSettled :: "(beffect \<Rightarrow> exn option) \<Rightarrow> exn + nat \<Rightarrow> broker \<Rightarrow> handled" where
  "onCreateSettled env res b = tryCatch env (afterCreateSyncConnection env res b)"

definition onReceiveSettled :: "(beffect \<Rightarrow> exn option) \<Rightarrow> exn option \<Rightarrow> broker \<Rightarrow> handled" where
  "onReceiveSettled env res b = tryCatch env (afterReceiveChanges res b)"

text \<open>An environment in which no collaborator call throws.\<close>

definition quiet :: "beffect \<Rightarrow> exn option" where
  "quiet c = None"

text \<open>
  In the concrete runs below a raw frame is represented by what the codec makes of it:
  \<open>Some m\<close> for a frame that decodes to \<open>m\<close>, \<open>None\<close> for one the codec rejects.
\<close>

definition decoded :: "msg option \<Rightarrow> msg option" where
  "decoded raw = raw"

section \<open>Properties of PrimarySocket\<close>

subsection \<open>What each operation changes\<close>

lemma emit_fields [simp]:
  "effects (emit e s) = effects s @ [e]"
  "createDbRequests (emit e s) = createDbRequests s"
  "applyChangesRequests (emit e s) = applyChangesRequests s"
  "closed (emit e s) = closed s"
  "socketDestroyed (emit e s) = socketDestroyed s"
  "pingPongActive (emit e s) = pingPongActive s"
  "lastPong (emit e s) = lastPong s"
  "nextPromise (emit e s) = nextPromise s"
  "port (emit e s) = port s"
  "appName (emit e s) = appName s"
  "currentPrimaryInstanceId (emit e s) = currentPrimaryInstanceId s"
  by (simp_all add: emit_def)

lemma createDbResolver_fields [simp]:
  "effects (createDbResolver p m s) = effects s @ [Settle p (settleOf m)]"
  "createDbRequests (createDbResolver p m s) = deleteKey (reqid m) (createDbRequests s)"
  "applyChangesRequests (createDbResolver p m s) = applyChangesRequests s"
  "closed (createDbResolver p m s) = closed s"
  "socketDestroyed (createDbResolver p m s) = socketDestroyed s"
  "pingPongActive (createDbResolver p m s) = pingPongActive s"
  "lastPong (createDbResolver p m s) = lastPong s"
  "nextPromise (createDbResolver p m s) = nextPromise s"
  "port (createDbResolver p m s) = port s"
  "appName (createDbResolver p m s) = appName s"
  "currentPrimaryInstanceId (createDbResolver p m s) = currentPrimaryInstanceId s"
  by (simp_all add: createDbResolver_def settleOf_def Let_def)

lemma applyChangesResolver_fields [simp]:
  "effects (applyChangesResolver p m s) = effects s @ [Settle p (settleOf m)]"
  "applyChangesRequests (applyChangesResolver p m s) = deleteKey (reqid m) (applyChangesRequests s)"
  "createDbRequests (applyChangesResolver p m s) = createDbRequests s"
  "closed (applyChangesResolver p m s) = closed s"
  "socketDestroyed (applyChangesResolver p m s) = socketDestroyed s"
  "pingPongActive (applyChangesResolver p m s) = pingPongActive s"
  "lastPong (applyChangesResolver p m s) = lastPong s"
  "nextPromise (applyChangesResolver p m s) = nextPromise s"
  "port (applyChangesResolver p m s) = port s"
  "appName (applyChangesResolver p m s) = appName s"
  "currentPrimaryInstanceId (applyChangesResolver p m s) = currentPrimaryInstanceId s"
  by (simp_all add: applyChangesResolver_def settleOf_def Let_def)

lemma createDbResolver_eq:
  "createDbResolver p m s =
     s\<lparr>createDbRequests := deleteKey (reqid m) (createDbRequests s),
       effects := effects s @ [Settle p (settleOf m)]\<rparr>"
  by (simp add: createDbResolver_def settleOf_def Let_def emit_def)

lemma applyChangesResolver_eq:
  "applyChangesResolver p m s =
     s\<lparr>applyChangesRequests := deleteKey (reqid m) (applyChangesRequests s),
       effects := effects s @ [Settle p (settleOf m)]\<rparr>"
  by (simp add: applyChangesResolver_def settleOf_def Let_def emit_def)

lemma deleteKey_sentinel [simp]:
  "- 1 \<notin> fst ` set t \<Longrightarrow> deleteKey (reqid closedErr) t = t"
  by (simp add: closedErr_def)

lemma settleOf_closedErr [simp]: "settleOf closedErr = Rejected closedErr"
  by (simp add: settleOf_def closedErr_def)

lemma rejectCreateDbLoop_clean:
  "- 1 \<notin> fst ` set (createDbRequests s) \<Longrightarrow> set rest \<subseteq> set (createDbRequests s) \<Longrightarrow>
   rejectCreateDbLoop rest s = s\<lparr>effects := effects s @ rejections rest\<rparr>"
proof (induction rest arbitrary: s)
  case Nil
  then show ?case by (simp add: rejections_def)
next
  case (Cons a rest)
  obtain k r where a: "a = (k, r)" by (cases a)
  let ?s' = "createDbResolver r closedErr s"
  have t: "createDbRequests ?s' = createDbRequests s" using Cons.prems(1) by simp
  have f: "filter (\<lambda>e. e \<in> set (createDbRequests s)) rest = rest"
    using Cons.prems by (auto simp: filter_id_conv)
  have "rejectCreateDbLoop rest ?s' = ?s'\<lparr>effects := effects ?s' @ rejections rest\<rparr>"
    using Cons.prems by (intro Cons.IH) auto
  then show ?case using Cons.prems(1)
    by (simp add: a f Let_def rejections_def createDbResolver_eq)
qed

lemma rejectApplyChangesLoop_clean:
  "- 1 \<notin> fst ` set (applyChangesRequests s) \<Longrightarrow> set rest \<subseteq> set (applyChangesRequests s) \<Longrightarrow>
   rejectApplyChangesLoop rest s = s\<lparr>effects := effects s @ rejections rest\<rparr>"
proof (induction rest arbitrary: s)
  case Nil
  then show ?case by (simp add: rejections_def)
next
  case (Cons a rest)
  obtain k r where a: "a = (k, r)" by (cases a)
  let ?s' = "applyChangesResolver r closedErr s"
  have f: "filter (\<lambda>e. e \<in> set (applyChangesRequests s)) rest = rest"
    using Cons.prems by (auto simp: filter_id_conv)
  have "rejectApplyChangesLoop rest ?s' = ?s'\<lparr>effects := effects ?s' @ rejections rest\<rparr>"
    using Cons.prems by (intro Cons.IH) auto
  then show ?case using Cons.prems(1)
    by (simp add: a f Let_def rejections_def applyChangesResolver_eq)
qed

lemma rejections_append: "rejections (xs @ ys) = rejections xs @ rejections ys"
  by (simp add: rejections_def)

lemma rejectPending_clean:
  assumes "- 1 \<notin> fst ` set (createDbRequests s)" "- 1 \<notin> fst ` set (applyChangesRequests s)"
  shows "rejectPending s =
     s\<lparr>createDbRequests := [], applyChangesRequests := [],
       effects := effects s @ rejections (createDbRequests s @ applyChangesRequests s)\<rparr>"
proof -
  have 1: "rejectCreateDbLoop (createDbRequests s) s =
      s\<lparr>effects := effects s @ rejections (createDbRequests s)\<rparr>"
    using assms(1) by (simp add: rejectCreateDbLoop_clean)
  let ?s2 = "s\<lparr>effects := effects s @ rejections (createDbRequests s), createDbRequests := []\<rparr>"
  have 2: "rejectApplyChangesLoop (applyChangesRequests s) ?s2 =
      ?s2\<lparr>effects := effects ?s2 @ rejections (applyChangesRequests s)\<rparr>"
    using assms(2) by (intro rejectApplyChangesLoop_clean) auto
  show ?thesis
    by (simp add: rejectPending_def Let_def 1 2 rejections_append)
qed

lemma rejectCreateDbLoop_shape:
  "\<exists>vs T. set vs \<subseteq> set rest \<and>
     rejectCreateDbLoop rest s = s\<lparr>createDbRequests := T, effects := effects s @ rejections vs\<rparr>"
proof (induction rest s rule: rejectCreateDbLoop.induct)
  case (1 s)
  have "rejectCreateDbLoop [] s = s\<lparr>createDbRequests := createDbRequests s, effects := effects s @ rejections []\<rparr>"
    by (simp add: rejections_def)
  then show ?case by blast
next
  case (2 k r rest s)
  let ?s' = "createDbResolver r closedErr s"
  let ?rest' = "filter (\<lambda>e. e \<in> set (createDbRequests ?s')) rest"
  from 2[OF refl] obtain vs T where vs: "set vs \<subseteq> set ?rest'"
    and eq: "rejectCreateDbLoop ?rest' ?s' = ?s'\<lparr>createDbRequests := T, effects := effects ?s' @ rejections vs\<rparr>"
    by blast
  have "set ((k, r) # vs) \<subseteq> set ((k, r) # rest)" using vs by auto
  moreover have "rejectCreateDbLoop ((k, r) # rest) s =
      s\<lparr>createDbRequests := T, effects := effects s @ rejections ((k, r) # vs)\<rparr>"
    using eq by (simp add: Let_def rejections_def createDbResolver_eq)
  ultimately show ?case by blast
qed

lemma rejectApplyChangesLoop_shape:
  "\<exists>vs T. set vs \<subseteq> set rest \<and>
     rejectApplyChangesLoop rest s = s\<lparr>applyChangesRequests := T, effects := effects s @ rejections vs\<rparr>"
proof (induction rest s rule: rejectApplyChangesLoop.induct)
  case (1 s)
  have "rejectApplyChangesLoop [] s = s\<lparr>applyChangesRequests := applyChangesRequests s, effects := effects s @ rejections []\<rparr>"
    by (simp add: rejections_def)
  then show ?case by blast
next
  case (2 k r rest s)
  let ?s' = "applyChangesResolver r closedErr s"
  let ?rest' = "filter (\<lambda>e. e \<in> set (applyChangesRequests ?s')) rest"
  from 2[OF refl] obtain vs T where vs: "set vs \<subseteq> set ?rest'"
    and eq: "rejectApplyChangesLoop ?rest' ?s' = ?s'\<lparr>applyChangesRequests := T, effects := effects ?s' @ rejections vs\<rparr>"
    by blast
  have "set ((k, r) # vs) \<subseteq> set ((k, r) # rest)" using vs by auto
  moreover have "rejectApplyChangesLoop ((k, r) # rest) s =
      s\<lparr>applyChangesRequests := T, effects := effects s @ rejections ((k, r) # vs)\<rparr>"
    using eq by (simp add: Let_def rejections_def applyChangesResolver_eq)
  ultimately show ?case by blast
qed

lemma rejectPending_shape:
  "\<exists>vs. set vs \<subseteq> set (createDbRequests s) \<union> set (applyChangesRequests s) \<and>
     rejectPending s =
       s\<lparr>createDbRequests := [], applyChangesRequests := [], effects := effects s @ rejections vs\<rparr>"
proof -
  obtain vs T where vs: "set vs \<subseteq> set (createDbRequests s)"
    and 1: "rejectCreateDbLoop (createDbRequests s) s =
       s\<lparr>createDbRequests := T, effects := effects s @ rejections vs\<rparr>"
    using rejectCreateDbLoop_shape by blast
  let ?s2 = "s\<lparr>effects := effects s @ rejections vs, createDbRequests := []\<rparr>"
  obtain ws U where ws: "set ws \<subseteq> set (applyChangesRequests s)"
    and 2: "rejectApplyChangesLoop (applyChangesRequests s) ?s2 =
       ?s2\<lparr>applyChangesRequests := U, effects := effects ?s2 @ rejections ws\<rparr>"
    using rejectApplyChangesLoop_shape[of "applyChangesRequests s" ?s2] by auto
  have "rejectPending s =
     s\<lparr>createDbRequests := [], applyChangesRequests := [], effects := effects s @ rejections (vs @ ws)\<rparr>"
    by (simp add: rejectPending_def Let_def 1 2 rejections_append)
  moreover have "set (vs @ ws) \<subseteq> set (createDbRequests s) \<union> set (applyChangesRequests s)"
    using vs ws by auto
  ultimately show ?thesis by blast
qed

lemma count_rejections [simp]: "count_list (rejections vs) PrematurelyClosed = 0"
  by (induction vs) (simp_all add: rejections_def)

lemma count_list_append: "count_list (xs @ ys) x = count_list xs x + count_list ys x"
  by (induction xs) simp_all

lemma rejectPending_fields [simp]:
  "createDbRequests (rejectPending s) = []"
  "applyChangesRequests (rejectPending s) = []"
  "closed (rejectPending s) = closed s"
  "socketDestroyed (rejectPending s) = socketDestroyed s"
  "pingPongActive (rejectPending s) = pingPongActive s"
  "lastPong (rejectPending s) = lastPong s"
  "nextPromise (rejectPending s) = nextPromise s"
  "port (rejectPending s) = port s"
  "appName (rejectPending s) = appName s"
  "currentPrimaryInstanceId (rejectPending s) = currentPrimaryInstanceId s"
  "callbackCount (rejectPending s) = callbackCount s"
  using rejectPending_shape[of s] by (auto simp: callbackCount_def count_list_append)

lemma PrimarySocket_new_fields [simp]:
  "createDbRequests (PrimarySocket_new p app inst t0 t1) = []"
  "applyChangesRequests (PrimarySocket_new p app inst t0 t1) = []"
  "closed (PrimarySocket_new p app inst t0 t1) = False"
  "socketDestroyed (PrimarySocket_new p app inst t0 t1) = False"
  "pingPongActive (PrimarySocket_new p app inst t0 t1) = True"
  "lastPong (PrimarySocket_new p app inst t0 t1) = t1"
  "nextPromise (PrimarySocket_new p app inst t0 t1) = 0"
  "effects (PrimarySocket_new p app inst t0 t1) =
     [SocketConnect p (connectHost app inst), SetInterval pingIntervalMs]"
  by (simp_all add: PrimarySocket_new_def connect_def Let_def emit_def)

lemma sendPing_fields [simp]:
  "createDbRequests (sendPing now s) = createDbRequests s"
  "applyChangesRequests (sendPing now s) = applyChangesRequests s"
  "closed (sendPing now s) = closed s"
  "lastPong (sendPing now s) = lastPong s"
  "nextPromise (sendPing now s) = nextPromise s"
  by (simp_all add: sendPing_def)

lemma sendPing_alive:
  "now - lastPong s \<le> pongTimeoutMs \<Longrightarrow> sendPing now s = s\<lparr>effects := effects s @ [SocketWrite Ping]\<rparr>"
  by (simp add: sendPing_def emit_def)

lemma sendPing_timeout:
  "pongTimeoutMs < now - lastPong s \<Longrightarrow>
   sendPing now s = s\<lparr>socketDestroyed := True, pingPongActive := False\<rparr>"
  by (simp add: sendPing_def)

lemma timerFires_inactive: "\<not> pingPongActive s \<Longrightarrow> timerFires ts s = s"
  by (cases ts) simp_all

lemma timerFires_append: "timerFires (xs @ ys) s = timerFires ys (timerFires xs s)"
  by (induction xs arbitrary: s) (simp_all add: timerFires_inactive)

lemma timerFires_alive:
  "pingPongActive s \<Longrightarrow> \<forall>t\<in>set ts. t - lastPong s \<le> pongTimeoutMs \<Longrightarrow>
   timerFires ts s = s\<lparr>effects := effects s @ replicate (length ts) (SocketWrite Ping)\<rparr>"
proof (induction ts arbitrary: s)
  case Nil
  then show ?case by simp
next
  case (Cons t ts)
  let ?s' = "s\<lparr>effects := effects s @ [SocketWrite Ping]\<rparr>"
  have 1: "sendPing t s = ?s'" using Cons.prems by (simp add: sendPing_alive)
  have "timerFires ts ?s' = ?s'\<lparr>effects := effects ?s' @ replicate (length ts) (SocketWrite Ping)\<rparr>"
    using Cons.prems by (intro Cons.IH) simp_all
  then show ?case using Cons.prems(1) by (simp add: 1)
qed

lemma onClose_shape:
  "\<not> closed s \<Longrightarrow>
   \<exists>vs. set vs \<subseteq> set (createDbRequests s) \<union> set (applyChangesRequests s) \<and>
     onClose s = s\<lparr>createDbRequests := [], applyChangesRequests := [],
                    effects := effects s @ rejections vs @ [PrematurelyClosed]\<rparr>"
proof -
  assume c: "\<not> closed s"
  obtain vs where vs: "set vs \<subseteq> set (createDbRequests s) \<union> set (applyChangesRequests s)"
    and eq: "rejectPending s =
       s\<lparr>createDbRequests := [], applyChangesRequests := [], effects := effects s @ rejections vs\<rparr>"
    using rejectPending_shape by blast
  have "onClose s = s\<lparr>createDbRequests := [], applyChangesRequests := [],
                    effects := effects s @ rejections vs @ [PrematurelyClosed]\<rparr>"
    using c by (simp add: onClose_def eq emit_def)
  with vs show ?thesis by blast
qed

lemma onError_shape:
  "\<not> closed s \<Longrightarrow>
   \<exists>vs. set vs \<subseteq> set (createDbRequests s) \<union> set (applyChangesRequests s) \<and>
     onError e s = s\<lparr>createDbRequests := [], applyChangesRequests := [],
                    effects := effects s @ LoggerError e # rejections vs @ [PrematurelyClosed]\<rparr>"
proof -
  assume c: "\<not> closed s"
  let ?s1 = "s\<lparr>effects := effects s @ [LoggerError e]\<rparr>"
  obtain vs where vs: "set vs \<subseteq> set (createDbRequests ?s1) \<union> set (applyChangesRequests ?s1)"
    and eq: "rejectPending ?s1 =
       ?s1\<lparr>createDbRequests := [], applyChangesRequests := [], effects := effects ?s1 @ rejections vs\<rparr>"
    using rejectPending_shape by blast
  have "onError e s = s\<lparr>createDbRequests := [], applyChangesRequests := [],
                    effects := effects s @ LoggerError e # rejections vs @ [PrematurelyClosed]\<rparr>"
    using c by (simp add: onError_def eq emit_def Let_def)
  with vs show ?thesis by (auto simp del: )
qed

lemma onClose_closed: "closed s \<Longrightarrow> onClose s = s"
  by (simp add: onClose_def)

lemma onError_closed: "closed s \<Longrightarrow> onError e s = s\<lparr>effects := effects s @ [LoggerError e]\<rparr>"
  by (simp add: onError_def emit_def Let_def)

lemma transport_open:
  "\<not> closed s \<Longrightarrow> \<not> closed (transport ev s) \<and> callbackCount (transport ev s) = Suc (callbackCount s)"
proof (cases ev)
  case (SockError e)
  assume "\<not> closed s"
  from onError_shape[OF this, of e] obtain vs where
    "onError e s = s\<lparr>createDbRequests := [], applyChangesRequests := [],
                    effects := effects s @ LoggerError e # rejections vs @ [PrematurelyClosed]\<rparr>"
    by blast
  then show ?thesis using \<open>\<not> closed s\<close> SockError
    by (simp add: callbackCount_def count_list_append)
next
  case SockClose
  assume "\<not> closed s"
  from onClose_shape[OF this] obtain vs where
    "onClose s = s\<lparr>createDbRequests := [], applyChangesRequests := [],
                    effects := effects s @ rejections vs @ [PrematurelyClosed]\<rparr>"
    by blast
  then show ?thesis using \<open>\<not> closed s\<close> SockClose
    by (simp add: callbackCount_def count_list_append)
qed

lemma transport_closed:
  "closed s \<Longrightarrow> closed (transport ev s) \<and> callbackCount (transport ev s) = callbackCount s"
  by (cases ev) (simp_all add: onClose_closed onError_closed callbackCount_def count_list_append)

lemma transportAll_open:
  "\<not> closed s \<Longrightarrow> \<not> closed (transportAll evs s) \<and>
     callbackCount (transportAll evs s) = callbackCount s + length evs"
proof (induction evs arbitrary: s)
  case Nil
  then show ?case by simp
next
  case (Cons ev evs)
  from transport_open[OF Cons.prems, of ev]
  have 1: "\<not> closed (transport ev s)" and 2: "callbackCount (transport ev s) = Suc (callbackCount s)"
    by simp_all
  from Cons.IH[OF 1] show ?case by (simp add: 2)
qed

lemma transportAll_closed:
  "closed s \<Longrightarrow> closed (transportAll evs s) \<and> callbackCount (transportAll evs s) = callbackCount s"
proof (induction evs arbitrary: s)
  case Nil
  then show ?case by simp
next
  case (Cons ev evs)
  from transport_closed[OF Cons.prems, of ev]
  have 1: "closed (transport ev s)" and 2: "callbackCount (transport ev s) = callbackCount s"
    by simp_all
  from Cons.IH[OF 1] show ?case by (simp add: 2)
qed

lemma close_fields [simp]:
  "createDbRequests (close s) = []"
  "applyChangesRequests (close s) = []"
  "closed (close s) = True"
  "socketDestroyed (close s) = True"
  "pingPongActive (close s) = False"
  "lastPong (close s) = lastPong s"
  "nextPromise (close s) = nextPromise s"
  by (simp_all add: close_def)

lemma close_callbackCount [simp]: "callbackCount (close s) = callbackCount s"
proof -
  have "callbackCount (close s) =
      callbackCount (s\<lparr>closed := True, socketDestroyed := True, pingPongActive := False\<rparr>)"
    unfolding close_def by (rule rejectPending_fields)
  then show ?thesis by (simp add: callbackCount_def)
qed

lemma rejectPending_empty:
  "createDbRequests s = [] \<Longrightarrow> applyChangesRequests s = [] \<Longrightarrow> rejectPending s = s"
  by (simp add: rejectPending_def)

lemma close_idem: "close (close s) = close s"
proof -
  have "(close s)\<lparr>closed := True, socketDestroyed := True, pingPongActive := False\<rparr> = close s"
    by simp
  then show ?thesis
    by (simp add: close_def[of "close s"] rejectPending_empty)
qed

lemma issue_eval [simp]:
  "issue (CallCreateDb i pl) s =
     s\<lparr>nextPromise := Suc (nextPromise s),
       createDbRequests := AList.update i (nextPromise s) (createDbRequests s),
       effects := effects s @ [SocketWrite (CreateDbOnPrimary i pl)]\<rparr>"
  "issue (CallApplyChanges i pl) s =
     s\<lparr>nextPromise := Suc (nextPromise s),
       applyChangesRequests := AList.update i (nextPromise s) (applyChangesRequests s),
       effects := effects s @ [SocketWrite (ApplyChangesOnPrimary i pl)]\<rparr>"
  by (simp_all add: sendCreateDb_def sendApplyChanges_def Let_def emit_def)

declare issue.simps [simp del]

lemmas eval_defs =
  PrimarySocket_new_def connect_def connectHost_def emit_def Let_def pingIntervalMs_def
  pongTimeoutMs_def closedErr_def createDbResolver_def applyChangesResolver_def
  sendCreateDb_def sendApplyChanges_def rejectPending_def onError_def onClose_def
  sendPing_def close_def callbackCount_def rejections_def handleMessage_def settleOf_def

subsection \<open>Heartbeat\<close>

lemma dispatch_lastPong:
  "dispatch tp m s = Inr s' \<Longrightarrow> m \<noteq> Pong \<Longrightarrow> lastPong s' = lastPong s"
  by (cases m) (auto split: option.splits)

lemma issue_lastPong: "lastPong (issue c s) = lastPong s"
  by (cases c) simp_all

text \<open>
  C9. The timer is installed with an interval of 1000 ms and the pong timeout is five
  intervals. The time of the last pong is the clock reading at which the last \<open>Pong\<close>
  message was handled, and the time of construction before the first one; no other message,
  no send and no firing changes it. Each firing calls \<open>sendPing\<close>: when more than the
  timeout has passed since the last pong, the socket is destroyed and the timer cancelled,
  and nothing is written; otherwise one \<open>Ping\<close> is written and socket and timer are left
  as they were. So a firing after a \<open>Pong\<close> handled at \<open>tp\<close> is decided by the time
  passed since \<open>tp\<close>.
\<close>

theorem sendPing_heartbeat:
  "pingIntervalMs = 1000 \<and> pongTimeoutMs = 5 * pingIntervalMs \<and>
   pingPongActive (PrimarySocket_new p app inst t0 t1) \<and>
   SetInterval pingIntervalMs \<in> set (effects (PrimarySocket_new p app inst t0 t1)) \<and>
   lastPong (PrimarySocket_new p app inst t0 t1) = t1 \<and>
   (decode d = Some Pong \<longrightarrow> handleMessage decode tp d s = Inr (s\<lparr>lastPong := tp\<rparr>)) \<and>
   (decode d = Some m \<and> m \<noteq> Pong \<and> handleMessage decode tp d s = Inr s' \<longrightarrow>
      lastPong s' = lastPong s) \<and>
   lastPong (sendPing now s) = lastPong s \<and>
   lastPong (issue c s) = lastPong s \<and>
   (pingPongActive s \<longrightarrow> timerFires [now] s = sendPing now s) \<and>
   (pongTimeoutMs < now - lastPong s \<longrightarrow>
      socketDestroyed (sendPing now s) \<and> \<not> pingPongActive (sendPing now s) \<and>
      effects (sendPing now s) = effects s) \<and>
   (\<not> pongTimeoutMs < now - lastPong s \<longrightarrow>
      effects (sendPing now s) = effects s @ [SocketWrite Ping] \<and>
      pingPongActive (sendPing now s) = pingPongActive s \<and>
      socketDestroyed (sendPing now s) = socketDestroyed s) \<and>
   (decode d = Some Pong \<and> pingPongActive s \<and> pongTimeoutMs < now - tp \<longrightarrow>
      (case handleMessage decode tp d s of
         Inl e \<Rightarrow> False
       | Inr s1 \<Rightarrow> timerFires [now] s1 = s\<lparr>lastPong := tp, socketDestroyed := True, pingPongActive := False\<rparr>)) \<and>
   (decode d = Some Pong \<and> pingPongActive s \<and> \<not> pongTimeoutMs < now - tp \<longrightarrow>
      (case handleMessage decode tp d s of
         Inl e \<Rightarrow> False
       | Inr s1 \<Rightarrow> timerFires [now] s1 = s\<lparr>lastPong := tp, effects := effects s @ [SocketWrite Ping]\<rparr>))"
proof -
  have pong: "handleMessage decode tp d s = Inr (s\<lparr>lastPong := tp\<rparr>)" if "decode d = Some Pong"
    using that by (simp add: handleMessage_def)
  have other: "lastPong s' = lastPong s"
    if "decode d = Some m" "m \<noteq> Pong" "handleMessage decode tp d s = Inr s'"
    using that dispatch_lastPong [of tp m s s'] by (simp add: handleMessage_def)
  have late: "timerFires [now] (s\<lparr>lastPong := tp\<rparr>) =
      s\<lparr>lastPong := tp, socketDestroyed := True, pingPongActive := False\<rparr>"
    if "pingPongActive s" "pongTimeoutMs < now - tp"
    using that by (simp add: sendPing_def)
  have fresh: "timerFires [now] (s\<lparr>lastPong := tp\<rparr>) =
      s\<lparr>lastPong := tp, effects := effects s @ [SocketWrite Ping]\<rparr>"
    if "pingPongActive s" "\<not> pongTimeoutMs < now - tp"
    using that by (simp add: sendPing_def emit_def)
  have cs: "pingIntervalMs = 1000" "pongTimeoutMs = 5 * pingIntervalMs"
    by (simp_all add: pingIntervalMs_def pongTimeoutMs_def)
  have ping: "(pongTimeoutMs < now - lastPong s \<longrightarrow>
      socketDestroyed (sendPing now s) \<and> \<not> pingPongActive (sendPing now s) \<and>
      effects (sendPing now s) = effects s) \<and>
   (\<not> pongTimeoutMs < now - lastPong s \<longrightarrow>
      effects (sendPing now s) = effects s @ [SocketWrite Ping] \<and>
      pingPongActive (sendPing now s) = pingPongActive s \<and>
      socketDestroyed (sendPing now s) = socketDestroyed s)"
    by (simp add: sendPing_def)
  show ?thesis
    using cs pong other late fresh ping by (simp add: issue_lastPong)
qed

theorem sendPing_heartbeat_witness:
  "decoded (Some Pong) = Some Pong \<and>
   pingPongActive (PrimarySocket_new 8080 None ''primary'' 0 0) \<and>
   handleMessage decoded 3000 (Some Pong) (PrimarySocket_new 8080 None ''primary'' 0 0) =
     Inr ((PrimarySocket_new 8080 None ''primary'' 0 0)\<lparr>lastPong := 3000\<rparr>) \<and>
   \<not> pongTimeoutMs < 8000 - 3000 \<and>
   timerFires [8000] ((PrimarySocket_new 8080 None ''primary'' 0 0)\<lparr>lastPong := 3000\<rparr>) =
     (PrimarySocket_new 8080 None ''primary'' 0 0)
       \<lparr>lastPong := 3000,
        effects := effects (PrimarySocket_new 8080 None ''primary'' 0 0) @ [SocketWrite Ping]\<rparr> \<and>
   pongTimeoutMs < 8001 - 3000 \<and>
   timerFires [8001] ((PrimarySocket_new 8080 None ''primary'' 0 0)\<lparr>lastPong := 3000\<rparr>) =
     (PrimarySocket_new 8080 None ''primary'' 0 0)
       \<lparr>lastPong := 3000, socketDestroyed := True, pingPongActive := False\<rparr> \<and>
   pongTimeoutMs < 8000 - lastPong (PrimarySocket_new 8080 None ''primary'' 0 0) \<and>
   socketDestroyed (sendPing 8000 (PrimarySocket_new 8080 None ''primary'' 0 0)) \<and>
   \<not> pingPongActive (sendPing 8000 (PrimarySocket_new 8080 None ''primary'' 0 0)) \<and>
   \<not> pongTimeoutMs < 5000 - lastPong (PrimarySocket_new 8080 None ''primary'' 0 0) \<and>
   effects (sendPing 5000 (PrimarySocket_new 8080 None ''primary'' 0 0)) =
     effects (PrimarySocket_new 8080 None ''primary'' 0 0) @ [SocketWrite Ping] \<and>
   pingPongActive (sendPing 5000 (PrimarySocket_new 8080 None ''primary'' 0 0))"
proof -
  let ?s = "PrimarySocket_new 8080 None ''primary'' 0 0"
  have h: "decoded (Some Pong) = Some Pong" "pingPongActive ?s"
    "\<not> pongTimeoutMs < 8000 - 3000" "pongTimeoutMs < 8001 - 3000"
    "pongTimeoutMs < 8000 - lastPong ?s" "\<not> pongTimeoutMs < 5000 - lastPong ?s"
    by (simp_all add: decoded_def pongTimeoutMs_def)
  note t = sendPing_heartbeat [of 8080 None "''primary''" 0 0 decoded "Some Pong" 3000 ?s
      Pong ?s _ "CallCreateDb 0 []"]
  from t [where now = 8000] t [where now = 8001] t [where now = 5000] h
  show ?thesis by (simp del: timerFires.simps)
qed

subsection \<open>Routing of replies\<close>

text \<open>
  C7. An \<open>Err\<close> is looked up in the create-db table first and in the apply-changes table
  second; the entry found first is rejected with that \<open>Err\<close> and removed from its table,
  the other table is left alone; when neither table has the id, the handler throws. A
  response whose id is not in the table of its family makes the handler throw as well.
\<close>

theorem handleMessage_err_routing:
  assumes "decode dE = Some (Err rid e)"
    and "decode dC = Some (CreateDbOnPrimaryResponse rid pl)"
    and "decode dA = Some (ApplyChangesOnPrimaryResponse rid pl)"
  shows
  "(map_of (createDbRequests s) rid = Some p \<longrightarrow>
      handleMessage decode now dE s =
        Inr (s\<lparr>createDbRequests := AList.delete rid (createDbRequests s),
               effects := effects s @ [Settle p (Rejected (Err rid e))]\<rparr>) \<and>
      map_of (AList.delete rid (createDbRequests s)) rid = None) \<and>
   (map_of (createDbRequests s) rid = None \<and> map_of (applyChangesRequests s) rid = Some p \<longrightarrow>
      handleMessage decode now dE s =
        Inr (s\<lparr>applyChangesRequests := AList.delete rid (applyChangesRequests s),
               effects := effects s @ [Settle p (Rejected (Err rid e))]\<rparr>) \<and>
      map_of (AList.delete rid (applyChangesRequests s)) rid = None) \<and>
   (map_of (createDbRequests s) rid = None \<and> map_of (applyChangesRequests s) rid = None \<longrightarrow>
      handleMessage decode now dE s = Inl (NoSuchErrRequest rid)) \<and>
   (map_of (createDbRequests s) rid = None \<longrightarrow>
      handleMessage decode now dC s = Inl (NoSuchRequest rid)) \<and>
   (map_of (applyChangesRequests s) rid = None \<longrightarrow>
      handleMessage decode now dA s = Inl (NoSuchRequest rid))"
  using assms
  by (simp add: handleMessage_def createDbResolver_eq applyChangesResolver_eq settleOf_def
      AList.delete_conv')

theorem handleMessage_err_routing_witness:
  "handleMessage decoded 0 (Some (Err 7 ''disk full''))
     (issue (CallCreateDb 7 ''db'') (PrimarySocket_new 8080 None ''primary'' 0 0)) =
     Inr ((issue (CallCreateDb 7 ''db'') (PrimarySocket_new 8080 None ''primary'' 0 0))
       \<lparr>createDbRequests := [],
        effects := effects (issue (CallCreateDb 7 ''db'') (PrimarySocket_new 8080 None ''primary'' 0 0))
           @ [Settle 0 (Rejected (Err 7 ''disk full''))]\<rparr>) \<and>
   handleMessage decoded 0 (Some (Err 7 ''disk full''))
     (issue (CallApplyChanges 7 ''ch'') (PrimarySocket_new 8080 None ''primary'' 0 0)) =
     Inr ((issue (CallApplyChanges 7 ''ch'') (PrimarySocket_new 8080 None ''primary'' 0 0))
       \<lparr>applyChangesRequests := [],
        effects := effects (issue (CallApplyChanges 7 ''ch'') (PrimarySocket_new 8080 None ''primary'' 0 0))
           @ [Settle 0 (Rejected (Err 7 ''disk full''))]\<rparr>) \<and>
   handleMessage decoded 0 (Some (Err 7 ''disk full'')) (PrimarySocket_new 8080 None ''primary'' 0 0) =
     Inl (NoSuchErrRequest 7) \<and>
   handleMessage decoded 0 (Some (CreateDbOnPrimaryResponse 7 ''ok''))
     (PrimarySocket_new 8080 None ''primary'' 0 0) = Inl (NoSuchRequest 7) \<and>
   handleMessage decoded 0 (Some (ApplyChangesOnPrimaryResponse 7 ''ok''))
     (PrimarySocket_new 8080 None ''primary'' 0 0) = Inl (NoSuchRequest 7)"
proof -
  have d: "decoded (Some (Err 7 ''disk full'')) = Some (Err 7 ''disk full'')"
    "decoded (Some (CreateDbOnPrimaryResponse 7 ''ok'')) = Some (CreateDbOnPrimaryResponse 7 ''ok'')"
    "decoded (Some (ApplyChangesOnPrimaryResponse 7 ''ok'')) = Some (ApplyChangesOnPrimaryResponse 7 ''ok'')"
    by (simp_all add: decoded_def)
  note r = handleMessage_err_routing [where decode = decoded, OF d, where now = 0 and p = 0]
  show ?thesis
    using r [where s = "issue (CallCreateDb 7 ''db'') (PrimarySocket_new 8080 None ''primary'' 0 0)"]
      r [where s = "issue (CallApplyChanges 7 ''ch'') (PrimarySocket_new 8080 None ''primary'' 0 0)"]
      r [where s = "PrimarySocket_new 8080 None ''primary'' 0 0"]
    by simp
qed

subsection \<open>Transport failure and the owner's callback\<close>

text \<open>
  C2, as the code has it. The handlers of the socket's \<open>error\<close> and \<open>close\<close> events
  test the closed flag and never set it. On a link that was not closed locally, each such
  event invokes \<open>onPrematurelyClosed\<close> once, so a run of events invokes it once per
  event; on a link closed locally none of them invokes it.
\<close>

theorem transport_callback_per_event:
  "(\<not> closed s \<longrightarrow>
      callbackCount (onError e s) = callbackCount s + 1 \<and>
      callbackCount (onClose s) = callbackCount s + 1 \<and>
      \<not> closed (onError e s) \<and> \<not> closed (onClose s) \<and>
      callbackCount (transportAll evs s) = callbackCount s + length evs) \<and>
   (closed s \<longrightarrow> callbackCount (transportAll evs s) = callbackCount s)"
  using transport_open [of s "SockError e"] transport_open [of s SockClose]
    transportAll_open [of s evs] transportAll_closed [of s evs]
  by simp

lemma callbackCount_new [simp]: "callbackCount (PrimarySocket_new p app inst t0 t1) = 0"
  by (simp add: callbackCount_def)

theorem transport_callback_per_event_witness:
  "\<not> closed (PrimarySocket_new 8080 None ''primary'' 0 0) \<and>
   callbackCount (transportAll [SockError ''ECONNRESET'', SockClose]
      (PrimarySocket_new 8080 None ''primary'' 0 0)) = 2 \<and>
   closed (close (PrimarySocket_new 8080 None ''primary'' 0 0)) \<and>
   callbackCount (transportAll [SockError ''ECONNRESET'', SockClose]
      (close (PrimarySocket_new 8080 None ''primary'' 0 0))) = 0"
  using transport_callback_per_event [of "PrimarySocket_new 8080 None ''primary'' 0 0"
      "''ECONNRESET''" "[SockError ''ECONNRESET'', SockClose]"]
    transport_callback_per_event [of "close (PrimarySocket_new 8080 None ''primary'' 0 0)"
      "''ECONNRESET''" "[SockError ''ECONNRESET'', SockClose]"]
  by simp

text \<open>
  C2 as the specification words it does not hold: an \<open>error\<close> event followed by the
  \<open>close\<close> event invokes the callback twice.
\<close>

theorem error_then_close_invokes_twice:
  "callbackCount (onClose (onError ''ECONNRESET'' (PrimarySocket_new 8080 None ''primary'' 0 0))) = 2 \<and>
   callbackCount (onClose (onError ''ECONNRESET'' (PrimarySocket_new 8080 None ''primary'' 0 0))) \<noteq> 1"
  by (simp add: eval_defs)

subsection \<open>Teardown sweep\<close>

text \<open>
  When no pending request is registered under the id \<open>-1\<close>, closing the link rejects
  every pending request of both tables, create-db entries first, each with the \<open>Err\<close> of
  id \<open>-1\<close> and text \<open>Primary connection closed\<close>, and leaves both tables empty; this
  holds for \<open>close\<close> and, on a link not closed locally, for the \<open>error\<close> and
  \<open>close\<close> events of the socket. A second \<open>close\<close> changes nothing at all.
\<close>

theorem close_rejects_all_pending:
  assumes "- 1 \<notin> fst ` set (createDbRequests s)" and "- 1 \<notin> fst ` set (applyChangesRequests s)"
  shows
  "effects (close s) = effects s @ rejections (createDbRequests s @ applyChangesRequests s) \<and>
   rejections (createDbRequests s @ applyChangesRequests s) =
     map (\<lambda>e. Settle (snd e) (Rejected (Err (- 1) ''Primary connection closed'')))
       (createDbRequests s @ applyChangesRequests s) \<and>
   createDbRequests (close s) = [] \<and> applyChangesRequests (close s) = [] \<and>
   close (close s) = close s \<and>
   (\<not> closed s \<longrightarrow>
      onClose s = s\<lparr>createDbRequests := [], applyChangesRequests := [],
        effects := effects s @ rejections (createDbRequests s @ applyChangesRequests s)
          @ [PrematurelyClosed]\<rparr> \<and>
      onError e s = s\<lparr>createDbRequests := [], applyChangesRequests := [],
        effects := effects s @ LoggerError e #
          rejections (createDbRequests s @ applyChangesRequests s) @ [PrematurelyClosed]\<rparr>)"
proof -
  let ?s0 = "s\<lparr>closed := True, socketDestroyed := True, pingPongActive := False\<rparr>"
  have "rejectPending ?s0 = ?s0\<lparr>createDbRequests := [], applyChangesRequests := [],
       effects := effects ?s0 @ rejections (createDbRequests ?s0 @ applyChangesRequests ?s0)\<rparr>"
    using assms by (intro rejectPending_clean) simp_all
  then have 1: "effects (close s) = effects s @ rejections (createDbRequests s @ applyChangesRequests s)"
    by (simp add: close_def)
  have 2: "rejections (createDbRequests s @ applyChangesRequests s) =
     map (\<lambda>e. Settle (snd e) (Rejected (Err (- 1) ''Primary connection closed'')))
       (createDbRequests s @ applyChangesRequests s)"
    by (simp add: rejections_def closedErr_def)
  have 3: "\<not> closed s \<longrightarrow>
      onClose s = s\<lparr>createDbRequests := [], applyChangesRequests := [],
        effects := effects s @ rejections (createDbRequests s @ applyChangesRequests s)
          @ [PrematurelyClosed]\<rparr>"
    using assms by (simp add: onClose_def rejectPending_clean emit_def)
  let ?s1 = "s\<lparr>effects := effects s @ [LoggerError e]\<rparr>"
  have "rejectPending ?s1 = ?s1\<lparr>createDbRequests := [], applyChangesRequests := [],
       effects := effects ?s1 @ rejections (createDbRequests ?s1 @ applyChangesRequests ?s1)\<rparr>"
    using assms by (intro rejectPending_clean) simp_all
  then have 4: "\<not> closed s \<longrightarrow>
      onError e s = s\<lparr>createDbRequests := [], applyChangesRequests := [],
        effects := effects s @ LoggerError e #
          rejections (createDbRequests s @ applyChangesRequests s) @ [PrematurelyClosed]\<rparr>"
    by (simp add: onError_def emit_def Let_def)
  show ?thesis using 1 2 3 4 by (simp add: close_idem)
qed

theorem close_rejects_all_pending_witness:
  "- 1 \<notin> fst ` set (createDbRequests
      (issueAll [CallCreateDb 3 ''a'', CallApplyChanges 4 ''b''] (PrimarySocket_new 8080 None ''primary'' 0 0))) \<and>
   - 1 \<notin> fst ` set (applyChangesRequests
      (issueAll [CallCreateDb 3 ''a'', CallApplyChanges 4 ''b''] (PrimarySocket_new 8080 None ''primary'' 0 0))) \<and>
   \<not> closed (issueAll [CallCreateDb 3 ''a'', CallApplyChanges 4 ''b''] (PrimarySocket_new 8080 None ''primary'' 0 0)) \<and>
   settlesOf 0 (effects (close
      (issueAll [CallCreateDb 3 ''a'', CallApplyChanges 4 ''b''] (PrimarySocket_new 8080 None ''primary'' 0 0)))) =
     [Rejected (Err (- 1) ''Primary connection closed'')] \<and>
   settlesOf 1 (effects (close
      (issueAll [CallCreateDb 3 ''a'', CallApplyChanges 4 ''b''] (PrimarySocket_new 8080 None ''primary'' 0 0)))) =
     [Rejected (Err (- 1) ''Primary connection closed'')] \<and>
   settlesOf 1 (effects (onError ''ECONNRESET''
      (issueAll [CallCreateDb 3 ''a'', CallApplyChanges 4 ''b''] (PrimarySocket_new 8080 None ''primary'' 0 0)))) =
     [Rejected (Err (- 1) ''Primary connection closed'')]"
proof -
  let ?s = "issueAll [CallCreateDb 3 ''a'', CallApplyChanges 4 ''b''] (PrimarySocket_new 8080 None ''primary'' 0 0)"
  have s: "createDbRequests ?s = [(3, 0)]" "applyChangesRequests ?s = [(4, 1)]" "\<not> closed ?s"
    "settlesOf 0 (effects ?s) = []" "settlesOf 1 (effects ?s) = []"
    by simp_all
  have settlesOf_append: "\<And>p xs ys. settlesOf p (xs @ ys) = settlesOf p xs @ settlesOf p ys"
    subgoal for p xs ys by (induction p xs rule: settlesOf.induct) simp_all
    done
  show ?thesis
    using close_rejects_all_pending [of ?s "''ECONNRESET''"] s
    by (simp add: rejections_def closedErr_def settlesOf_append)
qed

text \<open>
  C3 fails on the code when a pending request is registered under the id \<open>-1\<close> and is
  not the first entry of its table. The sweep calls the resolver of the request \<open>3\<close> with
  the \<open>Err\<close> of id \<open>-1\<close>; the resolver deletes the key of the message it is called
  with, so the entry under \<open>-1\<close> is gone before the iterator reaches it: the promise
  \<open>1\<close> is never rejected, by \<open>close\<close> or by the \<open>error\<close> handler, although the
  table is empty afterward. Issued in the other order, both requests are rejected.
\<close>

theorem close_skips_sentinel_id:
  "map_of (createDbRequests (issueAll [CallCreateDb 3 ''a'', CallCreateDb (- 1) ''b'']
      (PrimarySocket_new 8080 None ''primary'' 0 0))) 3 = Some 0 \<and>
   map_of (createDbRequests (issueAll [CallCreateDb 3 ''a'', CallCreateDb (- 1) ''b'']
      (PrimarySocket_new 8080 None ''primary'' 0 0))) (- 1) = Some 1 \<and>
   settlesOf 0 (effects (close (issueAll [CallCreateDb 3 ''a'', CallCreateDb (- 1) ''b'']
      (PrimarySocket_new 8080 None ''primary'' 0 0)))) =
     [Rejected (Err (- 1) ''Primary connection closed'')] \<and>
   settlesOf 1 (effects (close (issueAll [CallCreateDb 3 ''a'', CallCreateDb (- 1) ''b'']
      (PrimarySocket_new 8080 None ''primary'' 0 0)))) = [] \<and>
   createDbRequests (close (issueAll [CallCreateDb 3 ''a'', CallCreateDb (- 1) ''b'']
      (PrimarySocket_new 8080 None ''primary'' 0 0))) = [] \<and>
   settlesOf 1 (effects (onError ''ECONNRESET'' (issueAll [CallCreateDb 3 ''a'', CallCreateDb (- 1) ''b'']
      (PrimarySocket_new 8080 None ''primary'' 0 0)))) = [] \<and>
   settlesOf 0 (effects (close (issueAll [CallCreateDb (- 1) ''b'', CallCreateDb 3 ''a'']
      (PrimarySocket_new 8080 None ''primary'' 0 0)))) =
     [Rejected (Err (- 1) ''Primary connection closed'')] \<and>
   settlesOf 1 (effects (close (issueAll [CallCreateDb (- 1) ''b'', CallCreateDb 3 ''a'']
      (PrimarySocket_new 8080 None ''primary'' 0 0)))) =
     [Rejected (Err (- 1) ''Primary connection closed'')]"
  by (simp add: eval_defs)

lemma transport_shape:
  assumes "\<not> closed s"
  shows "\<exists>vs. set vs \<subseteq> set (createDbRequests s) \<union> set (applyChangesRequests s) \<and>
     transport ev s = s\<lparr>createDbRequests := [], applyChangesRequests := [],
        effects := effects s @ (case ev of SockError e \<Rightarrow> [LoggerError e] | SockClose \<Rightarrow> [])
           @ rejections vs @ [PrematurelyClosed]\<rparr>"
proof (cases ev)
  case (SockError e)
  then show ?thesis using onError_shape [OF assms, of e] by simp
next
  case SockClose
  then show ?thesis using onClose_shape [OF assms] by simp
qed

subsection \<open>What the failure handlers leave alone\<close>

text \<open>
  C10. On a link not closed locally, the handler of the socket's \<open>error\<close> or \<open>close\<close>
  event empties the request tables and adds to the effects only the logged error, rejections
  of pending requests and one callback invocation. The closed flag stays unset, the socket
  is not destroyed, the timer stays installed and the last-pong time is unchanged. So the
  timer goes on writing a \<open>Ping\<close> at every firing within the pong timeout, and the first
  firing beyond it destroys the socket and cancels the timer.
\<close>

theorem transport_failure_frame:
  assumes "\<not> closed s"
  shows
  "\<not> closed (transport ev s) \<and>
   socketDestroyed (transport ev s) = socketDestroyed s \<and>
   pingPongActive (transport ev s) = pingPongActive s \<and>
   lastPong (transport ev s) = lastPong s \<and>
   nextPromise (transport ev s) = nextPromise s \<and>
   port (transport ev s) = port s \<and> appName (transport ev s) = appName s \<and>
   currentPrimaryInstanceId (transport ev s) = currentPrimaryInstanceId s \<and>
   (\<exists>vs. set vs \<subseteq> set (createDbRequests s) \<union> set (applyChangesRequests s) \<and>
      effects (transport ev s) =
        effects s @ (case ev of SockError e \<Rightarrow> [LoggerError e] | SockClose \<Rightarrow> [])
          @ rejections vs @ [PrematurelyClosed]) \<and>
   (pingPongActive s \<and> (\<forall>t\<in>set ts. t - lastPong s \<le> pongTimeoutMs) \<longrightarrow>
      timerFires ts (transport ev s) =
        (transport ev s)\<lparr>effects := effects (transport ev s) @ replicate (length ts) (SocketWrite Ping)\<rparr> \<and>
      (pongTimeoutMs < t - lastPong s \<longrightarrow>
         timerFires (ts @ [t]) (transport ev s) =
           (timerFires ts (transport ev s))\<lparr>socketDestroyed := True, pingPongActive := False\<rparr>))"
proof -
  from transport_shape [OF assms, of ev] obtain vs
    where vs: "set vs \<subseteq> set (createDbRequests s) \<union> set (applyChangesRequests s)"
      and eq: "transport ev s = s\<lparr>createDbRequests := [], applyChangesRequests := [],
        effects := effects s @ (case ev of SockError e \<Rightarrow> [LoggerError e] | SockClose \<Rightarrow> [])
           @ rejections vs @ [PrematurelyClosed]\<rparr>"
    by blast
  let ?h = "transport ev s"
  have frame: "\<not> closed ?h" "socketDestroyed ?h = socketDestroyed s"
    "pingPongActive ?h = pingPongActive s" "lastPong ?h = lastPong s"
    "nextPromise ?h = nextPromise s" "port ?h = port s" "appName ?h = appName s"
    "currentPrimaryInstanceId ?h = currentPrimaryInstanceId s"
    using assms by (simp_all add: eq)
  have eff: "\<exists>vs. set vs \<subseteq> set (createDbRequests s) \<union> set (applyChangesRequests s) \<and>
      effects ?h = effects s @ (case ev of SockError e \<Rightarrow> [LoggerError e] | SockClose \<Rightarrow> [])
          @ rejections vs @ [PrematurelyClosed]"
    using vs by (intro exI [of _ vs]) (simp add: eq)
  have timer: "timerFires ts ?h = ?h\<lparr>effects := effects ?h @ replicate (length ts) (SocketWrite Ping)\<rparr> \<and>
      (pongTimeoutMs < t - lastPong s \<longrightarrow>
         timerFires (ts @ [t]) ?h = (timerFires ts ?h)\<lparr>socketDestroyed := True, pingPongActive := False\<rparr>)"
    if a: "pingPongActive s" "\<forall>t\<in>set ts. t - lastPong s \<le> pongTimeoutMs"
  proof -
    have 1: "timerFires ts ?h = ?h\<lparr>effects := effects ?h @ replicate (length ts) (SocketWrite Ping)\<rparr>"
      using a frame by (intro timerFires_alive) simp_all
    have "timerFires (ts @ [t]) ?h = (timerFires ts ?h)\<lparr>socketDestroyed := True, pingPongActive := False\<rparr>"
      if "pongTimeoutMs < t - lastPong s"
    proof -
      have "pingPongActive (timerFires ts ?h)" "lastPong (timerFires ts ?h) = lastPong s"
        using a frame by (simp_all add: 1)
      then show ?thesis using that
        by (simp add: timerFires_append sendPing_timeout)
    qed
    with 1 show ?thesis by blast
  qed
  show ?thesis using frame eff timer by blast
qed

theorem transport_failure_frame_witness:
  "\<not> closed (PrimarySocket_new 8080 None ''primary'' 0 0) \<and>
   pingPongActive (PrimarySocket_new 8080 None ''primary'' 0 0) \<and>
   1000 - lastPong (PrimarySocket_new 8080 None ''primary'' 0 0) \<le> pongTimeoutMs \<and>
   2000 - lastPong (PrimarySocket_new 8080 None ''primary'' 0 0) \<le> pongTimeoutMs \<and>
   5000 - lastPong (PrimarySocket_new 8080 None ''primary'' 0 0) \<le> pongTimeoutMs \<and>
   pongTimeoutMs < 6000 - lastPong (PrimarySocket_new 8080 None ''primary'' 0 0) \<and>
   \<not> closed (transport (SockError ''ECONNRESET'') (PrimarySocket_new 8080 None ''primary'' 0 0)) \<and>
   \<not> socketDestroyed (transport (SockError ''ECONNRESET'') (PrimarySocket_new 8080 None ''primary'' 0 0)) \<and>
   pingPongActive (transport (SockError ''ECONNRESET'') (PrimarySocket_new 8080 None ''primary'' 0 0)) \<and>
   pingPongActive (timerFires [1000, 2000, 5000]
      (transport (SockError ''ECONNRESET'') (PrimarySocket_new 8080 None ''primary'' 0 0))) \<and>
   \<not> pingPongActive (timerFires ([1000, 2000, 5000] @ [6000])
      (transport (SockError ''ECONNRESET'') (PrimarySocket_new 8080 None ''primary'' 0 0))) \<and>
   socketDestroyed (timerFires ([1000, 2000, 5000] @ [6000])
      (transport (SockError ''ECONNRESET'') (PrimarySocket_new 8080 None ''primary'' 0 0)))"
proof -
  let ?s = "PrimarySocket_new 8080 None ''primary'' 0 0"
  have h: "\<not> closed ?s" "pingPongActive ?s"
    "\<forall>t\<in>set [1000, 2000, 5000]. t - lastPong ?s \<le> pongTimeoutMs"
    "pongTimeoutMs < 6000 - lastPong ?s"
    by (simp_all add: pongTimeoutMs_def)
  from transport_failure_frame [OF h(1), of "SockError ''ECONNRESET''" "[1000, 2000, 5000]" 6000] h
  show ?thesis by (simp del: timerFires.simps transport.simps)
qed

subsection \<open>Request correlation\<close>

lemma settlesOf_append: "settlesOf p (xs @ ys) = settlesOf p xs @ settlesOf p ys"
  by (induction p xs rule: settlesOf.induct) simp_all

lemma handleMessage_decoded:
  "decode d = Some m \<Longrightarrow> handleMessage decode now d s = dispatch now m s"
  by (simp add: handleMessage_def)

lemma route_Some_reqid: "route m s = Some p \<Longrightarrow> \<exists>k. reqid m = Some k"
  by (cases m) simp_all

lemma map_of_Some_key: "map_of t k = Some v \<Longrightarrow> k \<in> set (map fst t)"
  by (metis map_of_eq_None_iff option.distinct(1) set_map)

lemma dispatch_route:
  assumes r: "route m s = Some p" and d: "distinct (pendingIds s)"
  shows "\<exists>s'. dispatch now m s = Inr s' \<and>
     effects s' = effects s @ [Settle p (settleOf m)] \<and>
     (\<forall>m'. reqid m' \<noteq> reqid m \<longrightarrow> route m' s' = route m' s) \<and>
     set (pendingIds s') = set (pendingIds s) - {the (reqid m)} \<and>
     distinct (pendingIds s')"
proof -
  have route_del1: "route m' (createDbResolver p m s) = route m' s"
    if "reqid m' \<noteq> reqid m" "reqid m = Some k" for m' k
    using that by (cases m') (simp_all split: option.split)
  have route_del2: "route m' (applyChangesResolver p m s) = route m' s"
    if "reqid m' \<noteq> reqid m" "reqid m = Some k" for m' k
    using that by (cases m') (simp_all split: option.split)
  have ids1: "set (pendingIds (createDbResolver p m s)) = set (pendingIds s) - {k} \<and>
      distinct (pendingIds (createDbResolver p m s))"
    if "reqid m = Some k" "map_of (createDbRequests s) k = Some p" for k
  proof -
    have "k \<in> set (map fst (createDbRequests s))" using that(2) by (rule map_of_Some_key)
    then have "k \<notin> set (map fst (applyChangesRequests s))"
      using d by (auto simp: pendingIds_def)
    then show ?thesis using d that(1)
      by (auto simp: pendingIds_def createDbResolver_eq delete_keys distinct_removeAll)
  qed
  have ids2: "set (pendingIds (applyChangesResolver p m s)) = set (pendingIds s) - {k} \<and>
      distinct (pendingIds (applyChangesResolver p m s))"
    if "reqid m = Some k" "map_of (applyChangesRequests s) k = Some p" for k
  proof -
    have "k \<in> set (map fst (applyChangesRequests s))" using that(2) by (rule map_of_Some_key)
    then have "k \<notin> set (map fst (createDbRequests s))"
      using d by (auto simp: pendingIds_def)
    then show ?thesis using d that(1)
      by (auto simp: pendingIds_def applyChangesResolver_eq delete_keys distinct_removeAll)
  qed
  show ?thesis
  proof (cases m)
    case (CreateDbOnPrimaryResponse k pl)
    then have "map_of (createDbRequests s) k = Some p" using r by simp
    then show ?thesis
      using CreateDbOnPrimaryResponse route_del1 [of _ k] ids1 [of k] by simp
  next
    case (ApplyChangesOnPrimaryResponse k pl)
    then have "map_of (applyChangesRequests s) k = Some p" using r by simp
    then show ?thesis
      using ApplyChangesOnPrimaryResponse route_del2 [of _ k] ids2 [of k] by simp
  next
    case (Err k e)
    show ?thesis
    proof (cases "map_of (createDbRequests s) k")
      case None
      then have "map_of (applyChangesRequests s) k = Some p" using r Err by simp
      then show ?thesis
        using Err None route_del2 [of _ k] ids2 [of k] by simp
    next
      case (Some q)
      then have "map_of (createDbRequests s) k = Some p" using r Err by simp
      then show ?thesis
        using Err route_del1 [of _ k] ids1 [of k] by simp
    qed
  qed (use r in simp_all)
qed

lemma handleMessages_routed:
  assumes "distinct (pendingIds s)" and "distinct (map reqid ms)"
    and "\<forall>m\<in>set ms. route m s \<noteq> None"
    and "map (decode \<circ> snd) ds = map Some ms"
  shows "\<exists>s'. handleMessages decode ds s = Inr s' \<and>
     effects s' = effects s @ map (\<lambda>m. Settle (the (route m s)) (settleOf m)) ms \<and>
     set (pendingIds s') = set (pendingIds s) - (\<lambda>m. the (reqid m)) ` set ms \<and>
     distinct (pendingIds s')"
  using assms
proof (induction ms arbitrary: ds s)
  case Nil
  then show ?case by simp
next
  case (Cons m ms)
  from Cons.prems(4) obtain now d ds' where ds: "ds = (now, d) # ds'"
    and dm: "decode d = Some m" and rest0: "map (\<lambda>a. decode (snd a)) ds' = map Some ms"
    by (cases ds) (auto simp: comp_def)
  from Cons.prems(3) obtain p where p: "route m s = Some p" by auto
  from rest0 have rest: "map (decode \<circ> snd) ds' = map Some ms" by (simp add: comp_def)
  from dispatch_route [OF p Cons.prems(1), of now] obtain s1 where
    s1: "dispatch now m s = Inr s1"
    and e1: "effects s1 = effects s @ [Settle p (settleOf m)]"
    and r1: "\<forall>m'. reqid m' \<noteq> reqid m \<longrightarrow> route m' s1 = route m' s"
    and i1: "set (pendingIds s1) = set (pendingIds s) - {the (reqid m)}"
    and d1: "distinct (pendingIds s1)"
    by blast
  have same: "route m' s1 = route m' s" if "m' \<in> set ms" for m'
  proof -
    have "reqid m' \<noteq> reqid m" using that Cons.prems(2) by (auto simp: image_iff)
    with r1 show ?thesis by simp
  qed
  have "\<forall>m'\<in>set ms. route m' s1 \<noteq> None" using Cons.prems(3) same by simp
  from Cons.IH [OF d1 _ this rest] Cons.prems(2) obtain s' where
    h: "handleMessages decode ds' s1 = Inr s'"
    and e: "effects s' = effects s1 @ map (\<lambda>m. Settle (the (route m s1)) (settleOf m)) ms"
    and i: "set (pendingIds s') = set (pendingIds s1) - (\<lambda>m. the (reqid m)) ` set ms"
    and dd: "distinct (pendingIds s')"
    by auto
  have m_eq: "map (\<lambda>m. Settle (the (route m s1)) (settleOf m)) ms =
      map (\<lambda>m. Settle (the (route m s)) (settleOf m)) ms"
    using same by simp
  have "handleMessages decode ds s = Inr s'"
    using dm by (simp add: ds handleMessage_def s1 h)
  moreover have "effects s' = effects s @ map (\<lambda>m. Settle (the (route m s)) (settleOf m)) (m # ms)"
    by (simp add: e e1 m_eq p)
  moreover have "set (pendingIds s') = set (pendingIds s) - (\<lambda>m. the (reqid m)) ` set (m # ms)"
    using i i1 by auto
  ultimately show ?case using dd by blast
qed

lemma issueAll_append: "issueAll (cs @ ds) s = issueAll ds (issueAll cs s)"
  by (induction cs arbitrary: s) simp_all

lemma issue_fields:
  "nextPromise (issue c s) = Suc (nextPromise s)"
  "settlesOf p (effects (issue c s)) = settlesOf p (effects s)"
  "closed (issue c s) = closed s"
  by (cases c; simp add: settlesOf_append)+

lemma issue_registered:
  assumes "callId c \<notin> set (pendingIds s)"
  shows "registeredAt c (issue c s) = Some (nextPromise s)"
    and "callId c' \<noteq> callId c \<Longrightarrow> registeredAt c' (issue c s) = registeredAt c' s"
    and "set (pendingIds (issue c s)) = insert (callId c) (set (pendingIds s))"
    and "distinct (pendingIds s) \<Longrightarrow> distinct (pendingIds (issue c s))"
proof -
  show "registeredAt c (issue c s) = Some (nextPromise s)"
    by (cases c) (simp_all add: update_conv')
  show "registeredAt c' (issue c s) = registeredAt c' s" if "callId c' \<noteq> callId c"
    using that by (cases c; cases c') (simp_all add: update_conv')
  show "set (pendingIds (issue c s)) = insert (callId c) (set (pendingIds s))"
    by (cases c) (auto simp: pendingIds_def update_keys)
  show "distinct (pendingIds (issue c s))" if "distinct (pendingIds s)"
    using that assms by (cases c) (auto simp: pendingIds_def update_keys)
qed

lemma issueAll_registered:
  assumes "distinct (map callId cs)" and "createDbRequests s = []" and "applyChangesRequests s = []"
  shows "nextPromise (issueAll cs s) = nextPromise s + length cs \<and>
     settlesOf p (effects (issueAll cs s)) = settlesOf p (effects s) \<and>
     closed (issueAll cs s) = closed s \<and>
     set (pendingIds (issueAll cs s)) = set (map callId cs) \<and>
     distinct (pendingIds (issueAll cs s)) \<and>
     (\<forall>i<length cs. registeredAt (cs ! i) (issueAll cs s) = Some (nextPromise s + i))"
  using assms(1)
proof (induction cs rule: rev_induct)
  case Nil
  then show ?case using assms(2,3) by (simp add: pendingIds_def)
next
  case (snoc c cs)
  let ?s1 = "issueAll cs s"
  from snoc have IH: "nextPromise ?s1 = nextPromise s + length cs"
    "settlesOf p (effects ?s1) = settlesOf p (effects s)"
    "closed ?s1 = closed s"
    "set (pendingIds ?s1) = set (map callId cs)" "distinct (pendingIds ?s1)"
    "\<forall>i<length cs. registeredAt (cs ! i) ?s1 = Some (nextPromise s + i)"
    by simp_all
  have fresh: "callId c \<notin> set (pendingIds ?s1)" using snoc.prems IH(4) by simp
  note reg = issue_registered [OF fresh]
  have "registeredAt ((cs @ [c]) ! i) (issue c ?s1) = Some (nextPromise s + i)"
    if "i < length (cs @ [c])" for i
  proof (cases "i < length cs")
    case True
    then have "cs ! i \<in> set cs" by simp
    then have "callId (cs ! i) \<noteq> callId c" using snoc.prems by (auto simp: image_iff)
    then show ?thesis using True IH(6) reg(2) by (simp add: nth_append)
  next
    case False
    then have "i = length cs" using that by simp
    then show ?thesis using reg(1) IH(1) by (simp add: nth_append)
  qed
  then show ?case
    using IH reg(3) reg(4) by (simp add: issueAll_append issue_fields)
qed

lemma answers_reqid: "answers c m \<Longrightarrow> reqid m = Some (callId c)"
  by (induction c m rule: answers.induct) simp_all

lemma answers_route:
  assumes "answers c m" and "registeredAt c s = Some p" and "distinct (pendingIds s)"
  shows "route m s = Some p"
proof (cases c)
  case (CallCreateDb i pl)
  then show ?thesis using assms(1,2) by (cases m) simp_all
next
  case (CallApplyChanges i pl)
  then have reg: "map_of (applyChangesRequests s) i = Some p" using assms(2) by simp
  then have "i \<in> set (map fst (applyChangesRequests s))" by (rule map_of_Some_key)
  then have "i \<notin> set (map fst (createDbRequests s))"
    using assms(3) by (auto simp: pendingIds_def)
  then have "map_of (createDbRequests s) i = None"
    by (simp add: map_of_eq_None_iff)
  then show ?thesis using assms(1) reg CallApplyChanges by (cases m) simp_all
qed

lemma filter_eq_single: "distinct xs \<Longrightarrow> x \<in> set xs \<Longrightarrow> filter (\<lambda>y. y = x) xs = [x]"
  by (induction xs) (auto simp: filter_empty_conv)

lemma settlesOf_map:
  "settlesOf p (map (\<lambda>m. Settle (f m) (g m)) ms) = map g (filter (\<lambda>m. f m = p) ms)"
  by (induction ms) simp_all

lemma dispatch_no_pending:
  assumes "answers c m" and "createDbRequests s = []" and "applyChangesRequests s = []"
  shows "\<exists>e. dispatch now m s = Inl e"
  using assms by (cases m) simp_all

text \<open>
  C1. A batch of calls with pairwise distinct request ids is issued on a link with empty
  tables, and then one reply for each call arrives, in any order; a reply is the response of
  the call's family or an \<open>Err\<close>, with the call's request id. Then no reply makes the
  handler throw, the promise of each call has its settle function called exactly once, with
  the reply that bears the call's id, and both tables are empty at the end, so that a
  further reply to any call finds no entry and makes the handler throw. The callback of a
  socket write that succeeded does nothing.
\<close>

theorem request_correlation:
  assumes "distinct (map callId cs)"
    and "createDbRequests s0 = []" and "applyChangesRequests s0 = []"
    and "\<forall>i<length cs. settlesOf (nextPromise s0 + i) (effects s0) = []"
    and "map (decode \<circ> snd) ds = map Some ms"
    and "mset (map reqid ms) = mset (map (Some \<circ> callId) cs)"
    and "\<forall>m\<in>set ms. \<exists>c\<in>set cs. answers c m"
  shows "\<exists>s'. handleMessages decode ds (issueAll cs s0) = Inr s' \<and>
     createDbRequests s' = [] \<and> applyChangesRequests s' = [] \<and>
     (\<forall>i<length cs. \<exists>m\<in>set ms. answers (cs ! i) m \<and>
         settlesOf (nextPromise s0 + i) (effects s') = [settleOf m]) \<and>
     (\<forall>c m now d. answers c m \<and> decode d = Some m \<longrightarrow>
         (\<exists>e. handleMessage decode now d s' = Inl e)) \<and>
     (\<forall>rid p s. createDbWriteDone rid p None s = s \<and> applyChangesWriteDone rid p None s = s)"
proof -
  let ?n = "nextPromise s0"
  let ?s1 = "issueAll cs s0"
  have ids1: "set (pendingIds ?s1) = set (map callId cs)"
    and d1: "distinct (pendingIds ?s1)"
    and reg: "\<forall>i<length cs. registeredAt (cs ! i) ?s1 = Some (?n + i)"
    and eff1: "\<And>p. settlesOf p (effects ?s1) = settlesOf p (effects s0)"
    using issueAll_registered [OF assms(1-3)] by blast+
  have dcs: "distinct (map (Some \<circ> callId) cs)"
    using assms(1) by (simp add: distinct_map inj_on_def)
  have dms: "distinct (map reqid ms)"
    using assms(6) dcs mset_eq_imp_distinct_iff by blast
  then have dms': "distinct ms" and inj: "inj_on reqid (set ms)"
    by (simp_all add: distinct_map)
  have inj_cs: "inj_on callId (set cs)" using assms(1) by (simp add: distinct_map)
  have idset: "reqid ` set ms = (Some \<circ> callId) ` set cs"
    using mset_eq_setD [OF assms(6)] by simp
  have routed: "\<exists>i<length cs. answers (cs ! i) m \<and> route m ?s1 = Some (?n + i)"
    if "m \<in> set ms" for m
  proof -
    from assms(7) that obtain c where c: "c \<in> set cs" "answers c m" by blast
    then obtain i where i: "i < length cs" "cs ! i = c" by (auto simp: in_set_conv_nth)
    have "route m ?s1 = Some (?n + i)"
      using answers_route [of c m ?s1 "?n + i"] c(2) reg i d1 by auto
    with i c show ?thesis by blast
  qed
  then have "\<forall>m\<in>set ms. route m ?s1 \<noteq> None" by fastforce
  from handleMessages_routed [OF d1 dms this assms(5)] obtain s' where
    run: "handleMessages decode ds ?s1 = Inr s'"
    and eff: "effects s' = effects ?s1 @ map (\<lambda>m. Settle (the (route m ?s1)) (settleOf m)) ms"
    and ids: "set (pendingIds s') = set (pendingIds ?s1) - (\<lambda>m. the (reqid m)) ` set ms"
    by blast
  have "set (map callId cs) \<subseteq> (\<lambda>m. the (reqid m)) ` set ms"
  proof
    fix k assume "k \<in> set (map callId cs)"
    then have "Some k \<in> (Some \<circ> callId) ` set cs" by auto
    then have "Some k \<in> reqid ` set ms" using idset by simp
    then obtain m where "m \<in> set ms" "reqid m = Some k" by auto
    then show "k \<in> (\<lambda>m. the (reqid m)) ` set ms" by force
  qed
  then have "set (pendingIds s') = {}" using ids ids1 by auto
  then have empty: "createDbRequests s' = []" "applyChangesRequests s' = []"
    by (simp_all add: pendingIds_def)
  have settled: "\<exists>m\<in>set ms. answers (cs ! i) m \<and> settlesOf (?n + i) (effects s') = [settleOf m]"
    if i: "i < length cs" for i
  proof -
    have "Some (callId (cs ! i)) \<in> (Some \<circ> callId) ` set cs" using i by auto
    then obtain m where m: "m \<in> set ms" "reqid m = Some (callId (cs ! i))"
      using idset by (metis imageE)
    from routed [OF m(1)] obtain j where j: "j < length cs" "answers (cs ! j) m"
      "route m ?s1 = Some (?n + j)" by blast
    have "callId (cs ! j) = callId (cs ! i)" using answers_reqid [OF j(2)] m(2) by simp
    then have "cs ! j = cs ! i" using inj_cs i j(1) by (simp add: inj_on_def)
    then have ji: "j = i" using assms(1) i j(1) distinct_map nth_eq_iff_index_eq by blast
    have only: "(the (route m' ?s1) = ?n + i) = (m' = m)" if m': "m' \<in> set ms" for m'
    proof
      assume a: "the (route m' ?s1) = ?n + i"
      from routed [OF m'] obtain l where l: "l < length cs" "answers (cs ! l) m'"
        "route m' ?s1 = Some (?n + l)" by blast
      then have "l = i" using a by simp
      then have "reqid m' = reqid m" using answers_reqid [OF l(2)] m(2) by simp
      then show "m' = m" using inj m m' by (simp add: inj_on_def)
    next
      assume "m' = m"
      then show "the (route m' ?s1) = ?n + i" using j(3) ji by simp
    qed
    have "filter (\<lambda>m'. the (route m' ?s1) = ?n + i) ms = filter (\<lambda>m'. m' = m) ms"
      using only by (intro filter_cong) simp_all
    also have "\<dots> = [m]" using dms' m(1) by (rule filter_eq_single)
    finally have "settlesOf (?n + i) (effects s') = [settleOf m]"
      using assms(4) i by (simp add: eff settlesOf_append eff1 settlesOf_map)
    with m(1) j(2) ji show ?thesis by blast
  qed
  have again: "\<exists>e. handleMessage decode now d s' = Inl e"
    if "answers c m" "decode d = Some m" for c m now d
    using dispatch_no_pending [OF that(1) empty] that(2) by (simp add: handleMessage_def)
  have writes: "createDbWriteDone rid p None s = s \<and> applyChangesWriteDone rid p None s = s"
    for rid p s
    by (simp add: createDbWriteDone_def applyChangesWriteDone_def)
  show ?thesis using run empty settled again writes by blast
qed

theorem request_correlation_witness:
  "distinct (map callId [CallCreateDb 7 ''db'', CallApplyChanges 8 ''ch'']) \<and>
   createDbRequests (PrimarySocket_new 8080 None ''primary'' 0 0) = [] \<and>
   applyChangesRequests (PrimarySocket_new 8080 None ''primary'' 0 0) = [] \<and>
   mset (map reqid [Err 8 ''busy'', CreateDbOnPrimaryResponse 7 ''ok'']) =
     mset (map (Some \<circ> callId) [CallCreateDb 7 ''db'', CallApplyChanges 8 ''ch'']) \<and>
   (\<exists>s'. handleMessages decoded
       [(10, Some (Err 8 ''busy'')), (20, Some (CreateDbOnPrimaryResponse 7 ''ok''))]
       (issueAll [CallCreateDb 7 ''db'', CallApplyChanges 8 ''ch'']
          (PrimarySocket_new 8080 None ''primary'' 0 0)) = Inr s' \<and>
     createDbRequests s' = [] \<and> applyChangesRequests s' = [] \<and>
     settlesOf 0 (effects s') = [Resolved (CreateDbOnPrimaryResponse 7 ''ok'')] \<and>
     settlesOf 1 (effects s') = [Rejected (Err 8 ''busy'')])"
proof -
  let ?cs = "[CallCreateDb 7 ''db'', CallApplyChanges 8 ''ch'']"
  let ?s0 = "PrimarySocket_new 8080 None ''primary'' 0 0"
  let ?ms = "[Err 8 ''busy'', CreateDbOnPrimaryResponse 7 ''ok'']"
  let ?ds = "[(10::int, Some (Err 8 ''busy'')), (20, Some (CreateDbOnPrimaryResponse 7 ''ok''))]"
  have h1: "distinct (map callId ?cs)" by simp
  have h2: "createDbRequests ?s0 = []" and h3: "applyChangesRequests ?s0 = []" by simp_all
  have h4: "\<forall>i<length ?cs. settlesOf (nextPromise ?s0 + i) (effects ?s0) = []" by simp
  have h5: "map (decoded \<circ> snd) ?ds = map Some ?ms" by (simp add: decoded_def)
  have h6: "mset (map reqid ?ms) = mset (map (Some \<circ> callId) ?cs)" by simp
  have h7: "\<forall>m\<in>set ?ms. \<exists>c\<in>set ?cs. answers c m" by simp
  from request_correlation [OF h1 h2 h3 h4 h5 h6 h7] obtain s' where
    run: "handleMessages decoded ?ds (issueAll ?cs ?s0) = Inr s'"
    and e: "createDbRequests s' = []" "applyChangesRequests s' = []"
    and st: "\<forall>i<length ?cs. \<exists>m\<in>set ?ms. answers (?cs ! i) m \<and>
         settlesOf (nextPromise ?s0 + i) (effects s') = [settleOf m]"
    by blast
  from st [rule_format, of 0]
  have "\<exists>m\<in>set ?ms. answers (?cs ! 0) m \<and> settlesOf (nextPromise ?s0 + 0) (effects s') = [settleOf m]"
    by simp
  then have s0: "settlesOf 0 (effects s') = [Resolved (CreateDbOnPrimaryResponse 7 ''ok'')]"
    by (simp add: settleOf_def)
  from st [rule_format, of 1]
  have "\<exists>m\<in>set ?ms. answers (?cs ! 1) m \<and> settlesOf (nextPromise ?s0 + 1) (effects s') = [settleOf m]"
    by simp
  then have s1: "settlesOf 1 (effects s') = [Rejected (Err 8 ''busy'')]"
    by (simp add: settleOf_def)
  from run e s0 s1 have "\<exists>s'. handleMessages decoded ?ds (issueAll ?cs ?s0) = Inr s' \<and>
     createDbRequests s' = [] \<and> applyChangesRequests s' = [] \<and>
     settlesOf 0 (effects s') = [Resolved (CreateDbOnPrimaryResponse 7 ''ok'')] \<and>
     settlesOf 1 (effects s') = [Rejected (Err 8 ''busy'')]"
    by blast
  with h1 h2 h3 h6 show ?thesis by blast
qed

section \<open>Properties of ConnectionBroker\<close>

lemma brokerClose_none: "syncConnection b = None \<Longrightarrow> brokerClose env b = (None, b)"
  by (simp add: brokerClose_def)

lemma brokerClose_some:
  "syncConnection b = Some sid \<Longrightarrow>
   brokerClose env b = (env (SessionClose sid), b\<lparr>blog := blog b @ [SessionClose sid]\<rparr>)"
  by (simp add: brokerClose_def callOut_def)

lemma brokerClose_session [simp]: "syncConnection (snd (brokerClose env b)) = syncConnection b"
  by (cases "syncConnection b") (simp_all add: brokerClose_none brokerClose_some)

subsection \<open>Messages before a session exists\<close>

text \<open>
  C8, as the code has it. With no session owned, the \<open>Changes\<close> and the
  \<open>RejectChanges\<close> case both throw on the missing session before any call on a
  collaborator. The listener catches the exception, writes it to the console and calls
  \<open>close\<close>, which finds no session and closes nothing: the console line is the only thing
  the broker does, and the connection stays in use. An \<open>AnnouncePresence\<close> that follows is
  handled as on a new broker, with a call of the factory.
\<close>

theorem changes_before_announce_fail:
  assumes "syncConnection b = None"
    and "m = Changes pl \<or> m = RejectChanges pl"
    and "decode data = Some m"
  shows "brokerHandleMessage env m b = Throw NullSession b \<and>
     brokerClose env (b\<lparr>blog := blog b @ [ConsoleError NullSession]\<rparr>) =
       (None, b\<lparr>blog := blog b @ [ConsoleError NullSession]\<rparr>) \<and>
     onMessage decode env data b = Done (b\<lparr>blog := blog b @ [ConsoleError NullSession]\<rparr>) \<and>
     syncConnection (brokerOf (onMessage decode env data b)) = None \<and>
     brokerHandleMessage env (AnnouncePresence pl') (brokerOf (onMessage decode env data b)) =
       (case env (CreateSyncConnection (room b) (AnnouncePresence pl')) of
          Some e \<Rightarrow> Throw e
            (b\<lparr>blog := blog b @ [ConsoleError NullSession,
                 CreateSyncConnection (room b) (AnnouncePresence pl')]\<rparr>)
        | None \<Rightarrow> Await AwaitCreateSyncConnection
            (b\<lparr>blog := blog b @ [ConsoleError NullSession,
                 CreateSyncConnection (room b) (AnnouncePresence pl')]\<rparr>))"
  using assms by (auto simp: onMessage_def brokerClose_def callOut_def split: option.splits)

theorem changes_before_announce_fail_witness:
  "syncConnection (ConnectionBroker_new ''r1'') = None \<and>
   decoded (Some (Changes ''c'')) = Some (Changes ''c'') \<and>
   decoded (Some (RejectChanges ''c'')) = Some (RejectChanges ''c'') \<and>
   onMessage decoded quiet (Some (Changes ''c'')) (ConnectionBroker_new ''r1'') =
     Done ((ConnectionBroker_new ''r1'')\<lparr>blog := [ConsoleError NullSession]\<rparr>) \<and>
   onMessage decoded quiet (Some (RejectChanges ''c'')) (ConnectionBroker_new ''r1'') =
     Done ((ConnectionBroker_new ''r1'')\<lparr>blog := [ConsoleError NullSession]\<rparr>) \<and>
   brokerHandleMessage quiet (AnnouncePresence ''a'')
     (brokerOf (onMessage decoded quiet (Some (Changes ''c'')) (ConnectionBroker_new ''r1''))) =
     Await AwaitCreateSyncConnection
       ((ConnectionBroker_new ''r1'')
          \<lparr>blog := [ConsoleError NullSession, CreateSyncConnection ''r1'' (AnnouncePresence ''a'')]\<rparr>)"
proof -
  have h: "syncConnection (ConnectionBroker_new ''r1'') = None"
    "decoded (Some (Changes ''c'')) = Some (Changes ''c'')"
    "decoded (Some (RejectChanges ''c'')) = Some (RejectChanges ''c'')"
    by (simp_all add: ConnectionBroker_new_def decoded_def)
  have b: "blog (ConnectionBroker_new ''r1'') = []" "room (ConnectionBroker_new ''r1'') = ''r1''"
    "quiet (CreateSyncConnection ''r1'' (AnnouncePresence ''a'')) = None"
    by (simp_all add: ConnectionBroker_new_def quiet_def)
  note t1 = changes_before_announce_fail [where decode = decoded and env = quiet and pl' = "''a''",
      OF h(1) disjI1 [OF refl] h(2)]
  note t2 = changes_before_announce_fail [where decode = decoded and env = quiet and pl' = "''a''",
      OF h(1) disjI2 [OF refl] h(3)]
  have c1: "onMessage decoded quiet (Some (Changes ''c'')) (ConnectionBroker_new ''r1'') =
     Done ((ConnectionBroker_new ''r1'')\<lparr>blog := [ConsoleError NullSession]\<rparr>)"
    using t1 [THEN conjunct2, THEN conjunct2, THEN conjunct1] b by simp
  have c2: "onMessage decoded quiet (Some (RejectChanges ''c'')) (ConnectionBroker_new ''r1'') =
     Done ((ConnectionBroker_new ''r1'')\<lparr>blog := [ConsoleError NullSession]\<rparr>)"
    using t2 [THEN conjunct2, THEN conjunct2, THEN conjunct1] b by simp
  have c3: "brokerHandleMessage quiet (AnnouncePresence ''a'')
     (brokerOf (onMessage decoded quiet (Some (Changes ''c'')) (ConnectionBroker_new ''r1''))) =
     Await AwaitCreateSyncConnection
       ((ConnectionBroker_new ''r1'')
          \<lparr>blog := [ConsoleError NullSession, CreateSyncConnection ''r1'' (AnnouncePresence ''a'')]\<rparr>)"
    using t1 [THEN conjunct2, THEN conjunct2, THEN conjunct2, THEN conjunct2] b
    by (simp del: brokerHandleMessage.simps)
  from h c1 c2 c3 show ?thesis by blast
qed

text \<open>
  C8 as the specification words it does not hold: the failure does not close the
  connection. After a \<open>Changes\<close> message that failed for want of a session, the broker
  announces, and a second \<open>Changes\<close> message reaches the session.
\<close>

theorem failed_changes_leave_connection_usable:
  "onMessage decoded quiet (Some (Changes ''c2''))
     (brokerOf (onCreateSettled quiet (Inr 0)
       (brokerOf (onMessage decoded quiet (Some (AnnouncePresence ''a''))
         (brokerOf (onMessage decoded quiet (Some (Changes ''c1''))
           (ConnectionBroker_new ''r1''))))))) =
   Pending AwaitReceiveChanges
     \<lparr>syncConnection = Some 0, room = ''r1'',
       blog = [ConsoleError NullSession, CreateSyncConnection ''r1'' (AnnouncePresence ''a''),
               SessionStart 0, SessionReceiveChanges 0 (Changes ''c2'')]\<rparr>"
  by (simp add: onCreateSettled_def onMessage_def decoded_def quiet_def ConnectionBroker_new_def
      afterCreateSyncConnection_def callOut_def brokerClose_def)

subsection \<open>After close\<close>

text \<open>
  C4, as the code has it. \<open>close\<close> closes the owned session, if there is one, and leaves
  the session field as it is: the broker has no closed state. After \<open>close\<close> on a broker
  that owns a session, \<open>AnnouncePresence\<close> is refused because a session exists, with no
  call of the factory, and \<open>Changes\<close> and \<open>RejectChanges\<close> are still passed to that
  session. After \<open>close\<close> on a broker that owns none, nothing has changed, and \<open>Changes\<close>
  and \<open>RejectChanges\<close> throw without a call on any session.
\<close>

theorem close_keeps_session:
  "syncConnection (snd (brokerClose env b)) = syncConnection b \<and>
   room (snd (brokerClose env b)) = room b \<and>
   (syncConnection b = None \<longrightarrow>
      brokerClose env b = (None, b) \<and>
      brokerHandleMessage env (Changes pl) (snd (brokerClose env b)) = Throw NullSession b \<and>
      brokerHandleMessage env (RejectChanges pl) (snd (brokerClose env b)) = Throw NullSession b) \<and>
   (syncConnection b = Some sid \<longrightarrow>
      blog (snd (brokerClose env b)) = blog b @ [SessionClose sid] \<and>
      brokerHandleMessage env (AnnouncePresence pl) (snd (brokerClose env b)) =
        Throw (AlreadyStarted (room b)) (snd (brokerClose env b)) \<and>
      brokerHandleMessage env (Changes pl) (snd (brokerClose env b)) =
        (case env (SessionReceiveChanges sid (Changes pl)) of
           Some e \<Rightarrow> Throw e
             (b\<lparr>blog := blog b @ [SessionClose sid, SessionReceiveChanges sid (Changes pl)]\<rparr>)
         | None \<Rightarrow> Await AwaitReceiveChanges
             (b\<lparr>blog := blog b @ [SessionClose sid, SessionReceiveChanges sid (Changes pl)]\<rparr>)) \<and>
      brokerHandleMessage env (RejectChanges pl) (snd (brokerClose env b)) =
        (case env (SessionChangesRejected sid (RejectChanges pl)) of
           Some e \<Rightarrow> Throw e
             (b\<lparr>blog := blog b @ [SessionClose sid, SessionChangesRejected sid (RejectChanges pl)]\<rparr>)
         | None \<Rightarrow> Return
             (b\<lparr>blog := blog b @ [SessionClose sid, SessionChangesRejected sid (RejectChanges pl)]\<rparr>)))"
  by (cases "syncConnection b")
    (auto simp: brokerClose_def callOut_def split: option.splits)

text \<open>A broker that has announced, with session \<open>0\<close> made by the factory.\<close>

lemma announced_eval:
  "brokerOf (onCreateSettled quiet (Inr 0)
     (brokerOf (onMessage decoded quiet (Some (AnnouncePresence ''a'')) (ConnectionBroker_new ''r1'')))) =
   \<lparr>syncConnection = Some 0, room = ''r1'',
     blog = [CreateSyncConnection ''r1'' (AnnouncePresence ''a''), SessionStart 0]\<rparr>"
  by (simp add: onCreateSettled_def onMessage_def decoded_def quiet_def ConnectionBroker_new_def
      afterCreateSyncConnection_def callOut_def)

theorem close_keeps_session_witness:
  "syncConnection (ConnectionBroker_new ''r1'') = None \<and>
   brokerClose quiet (ConnectionBroker_new ''r1'') = (None, ConnectionBroker_new ''r1'') \<and>
   syncConnection \<lparr>syncConnection = Some 0, room = ''r1'', blog = []\<rparr> = Some 0 \<and>
   brokerHandleMessage quiet (AnnouncePresence ''c'')
     (snd (brokerClose quiet \<lparr>syncConnection = Some 0, room = ''r1'', blog = []\<rparr>)) =
     Throw (AlreadyStarted ''r1'') \<lparr>syncConnection = Some 0, room = ''r1'', blog = [SessionClose 0]\<rparr> \<and>
   brokerHandleMessage quiet (Changes ''c'')
     (snd (brokerClose quiet \<lparr>syncConnection = Some 0, room = ''r1'', blog = []\<rparr>)) =
     Await AwaitReceiveChanges \<lparr>syncConnection = Some 0, room = ''r1'',
        blog = [SessionClose 0, SessionReceiveChanges 0 (Changes ''c'')]\<rparr>"
proof -
  have h: "syncConnection (ConnectionBroker_new ''r1'') = None"
    "syncConnection \<lparr>syncConnection = Some 0, room = ''r1'', blog = []\<rparr> = Some 0"
    by (simp_all add: ConnectionBroker_new_def)
  have q: "quiet (SessionReceiveChanges 0 (Changes ''c'')) = None" by (simp add: quiet_def)
  from close_keeps_session [of quiet "ConnectionBroker_new ''r1''" "''c''" 0]
    close_keeps_session [of quiet "\<lparr>syncConnection = Some 0, room = ''r1'', blog = []\<rparr>" "''c''" 0]
    h q
  show ?thesis
    by (simp del: brokerHandleMessage.simps add: brokerClose_some quiet_def)
qed

text \<open>
  C4 as the specification words it does not hold: after \<open>close\<close> the session is still
  owned, and a \<open>Changes\<close> message reaches its \<open>receiveChanges\<close>.
\<close>

theorem changes_after_close_reach_session:
  "onMessage decoded quiet (Some (Changes ''c''))
     (snd (brokerClose quiet
       (brokerOf (onCreateSettled quiet (Inr 0)
         (brokerOf (onMessage decoded quiet (Some (AnnouncePresence ''a''))
           (ConnectionBroker_new ''r1''))))))) =
   Pending AwaitReceiveChanges
     \<lparr>syncConnection = Some 0, room = ''r1'',
       blog = [CreateSyncConnection ''r1'' (AnnouncePresence ''a''), SessionStart 0,
               SessionClose 0, SessionReceiveChanges 0 (Changes ''c'')]\<rparr>"
  by (simp add: announced_eval)
    (simp add: onMessage_def decoded_def quiet_def brokerClose_def callOut_def)

subsection \<open>Exceptions at the connection boundary\<close>

text \<open>
  An exception thrown inside \<open>brokerHandleMessage\<close> is caught by the listener: it is
  written to the console and \<open>close\<close> is called. Unless \<open>close\<close> itself throws, the
  listener ends normally.
\<close>

lemma dispatch_exception_swallowed:
  assumes "decode data = Some m" and "brokerHandleMessage env m b = Throw e b'"
    and "fst (brokerClose env (b'\<lparr>blog := blog b' @ [ConsoleError e]\<rparr>)) = None"
  shows "onMessage decode env data b =
     Done (snd (brokerClose env (b'\<lparr>blog := blog b' @ [ConsoleError e]\<rparr>)))"
  using assms
  by (cases "brokerClose env (b'\<lparr>blog := blog b' @ [ConsoleError e]\<rparr>)") (simp add: onMessage_def)

lemma decode_failure_unhandled:
  "decode data = None \<Longrightarrow> onMessage decode env data b = Unhandled DecodeFailed b"
  by (simp add: onMessage_def)

text \<open>
  C5 fails on the code for a frame the codec rejects. \<open>decode\<close> is called before the
  \<open>try\<close> block, so its exception leaves the listener uncaught: nothing is written to
  the console, \<open>close\<close> is not called, and the session \<open>0\<close> stays open.
\<close>

theorem decode_failure_escapes_listener:
  "onMessage decoded quiet None
     (brokerOf (onCreateSettled quiet (Inr 0)
       (brokerOf (onMessage decoded quiet (Some (AnnouncePresence ''a''))
         (ConnectionBroker_new ''r1''))))) =
   Unhandled DecodeFailed
     \<lparr>syncConnection = Some 0, room = ''r1'',
       blog = [CreateSyncConnection ''r1'' (AnnouncePresence ''a''), SessionStart 0]\<rparr>"
  by (simp add: announced_eval) (simp add: onMessage_def decoded_def)

subsection \<open>Single session\<close>

text \<open>
  While a session is owned, \<open>AnnouncePresence\<close> throws before the factory is called; the
  listener logs the exception and closes the owned session, which stays in place.
\<close>

lemma announce_while_owned_refused:
  assumes "syncConnection b = Some sid" and "decode data = Some (AnnouncePresence pl)"
    and "env (SessionClose sid) = None"
  shows "brokerHandleMessage env (AnnouncePresence pl) b = Throw (AlreadyStarted (room b)) b"
    and "onMessage decode env data b =
      Done (b\<lparr>blog := blog b @ [ConsoleError (AlreadyStarted (room b)), SessionClose sid]\<rparr>)"
    and "syncConnection (brokerOf (onMessage decode env data b)) = Some sid"
  using assms by (simp_all add: onMessage_def brokerClose_def callOut_def)

text \<open>
  C6 fails on the code when a second \<open>AnnouncePresence\<close> arrives while the factory call
  of the first is still awaited. The session field is still empty then, so the second
  message passes the test and calls the factory again; when the two promises settle, two
  sessions have been made and started, and the second has replaced the first.
\<close>

theorem second_announce_during_create:
  "onMessage decoded quiet (Some (AnnouncePresence ''a2''))
     (brokerOf (onMessage decoded quiet (Some (AnnouncePresence ''a1'')) (ConnectionBroker_new ''r1''))) =
   Pending AwaitCreateSyncConnection
     \<lparr>syncConnection = None, room = ''r1'',
       blog = [CreateSyncConnection ''r1'' (AnnouncePresence ''a1''),
               CreateSyncConnection ''r1'' (AnnouncePresence ''a2'')]\<rparr> \<and>
   onCreateSettled quiet (Inr 1)
     (brokerOf (onCreateSettled quiet (Inr 0)
       (brokerOf (onMessage decoded quiet (Some (AnnouncePresence ''a2''))
         (brokerOf (onMessage decoded quiet (Some (AnnouncePresence ''a1''))
           (ConnectionBroker_new ''r1''))))))) =
   Done
     \<lparr>syncConnection = Some 1, room = ''r1'',
       blog = [CreateSyncConnection ''r1'' (AnnouncePresence ''a1''),
               CreateSyncConnection ''r1'' (AnnouncePresence ''a2''),
               SessionStart 0, SessionStart 1]\<rparr>"
  by (simp add: onCreateSettled_def onMessage_def decoded_def quiet_def ConnectionBroker_new_def
      afterCreateSyncConnection_def callOut_def)

end
